theory Spec2Isabelle
  imports Main
begin

section \<open>Calendar dates of the datetime library\<close>

text \<open>
  The tools of \<^verbatim>\<open>server.py\<close> compare calendar dates, add one day to a date and
  replace the year, month or day of a datetime. A \<^verbatim>\<open>date\<close> is represented by its
  proleptic Gregorian day number (\<^verbatim>\<open>date.toordinal()\<close>, day 1 is 0001-01-01): Python
  orders dates as their day numbers are ordered, and \<^verbatim>\<open>d + timedelta(days=1)\<close> is
  computed on the day number, raising \<^verbatim>\<open>OverflowError\<close> beyond 9999-12-31.
  A \<^verbatim>\<open>datetime\<close> that comes out of \<^verbatim>\<open>strptime(s, '%Y-%m-%d')\<close> is at midnight; only
  its year, month and day are kept. Where a response holds a date as \<^verbatim>\<open>'%Y-%m-%d'\<close>
  text, the model holds the date that was formatted.
\<close>

type_synonym date = int

record datetime =
  year :: int
  month :: int
  day :: int

datatype exn = ValueError | OverflowError

definition MINYEAR :: int where
  "MINYEAR = 1"

definition MAXYEAR :: int where
  "MAXYEAR = 9999"

definition is_leap :: "int \<Rightarrow> bool" where
  "is_leap y = (y mod 4 = 0 \<and> (y mod 100 \<noteq> 0 \<or> y mod 400 = 0))"

definition days_before_year :: "int \<Rightarrow> int" where
  "days_before_year y = (y - 1) * 365 + (y - 1) div 4 - (y - 1) div 100 + (y - 1) div 400"

definition days_in_month :: "int \<Rightarrow> int \<Rightarrow> int" where
  "days_in_month y m =
     (if m = 2 then (if is_leap y then 29 else 28)
      else if m = 4 \<or> m = 6 \<or> m = 9 \<or> m = 11 then 30 else 31)"

definition days_before_month :: "int \<Rightarrow> int \<Rightarrow> int" where
  "days_before_month y m =
     (if m = 1 then 0 else if m = 2 then 31 else if m = 3 then 59 else if m = 4 then 90
      else if m = 5 then 120 else if m = 6 then 151 else if m = 7 then 181
      else if m = 8 then 212 else if m = 9 then 243 else if m = 10 then 273
      else if m = 11 then 304 else 334)
     + (if 2 < m \<and> is_leap y then 1 else 0)"

definition ymd2ord :: "int \<Rightarrow> int \<Rightarrow> int \<Rightarrow> date" where
  "ymd2ord y m d = days_before_year y + days_before_month y m + d"

definition MAXORDINAL :: date where
  "MAXORDINAL = 3652059"

text \<open>\<^verbatim>\<open>dt.date()\<close>, as a day number.\<close>

definition date_of :: "datetime \<Rightarrow> date" where
  "date_of dt = ymd2ord (year dt) (month dt) (day dt)"

text \<open>\<^verbatim>\<open>a <= b\<close> and \<^verbatim>\<open>a < b\<close> on two midnight datetimes: field by field.\<close>

definition dt_le :: "datetime \<Rightarrow> datetime \<Rightarrow> bool" where
  "dt_le a b =
     (year a < year b \<or>
      (year a = year b \<and> (month a < month b \<or> (month a = month b \<and> day a \<le> day b))))"

definition dt_less :: "datetime \<Rightarrow> datetime \<Rightarrow> bool" where
  "dt_less a b =
     (year a < year b \<or>
      (year a = year b \<and> (month a < month b \<or> (month a = month b \<and> day a < day b))))"

text \<open>
  \<^verbatim>\<open>dt.replace(year=y, month=m, day=d)\<close>: the constructor checks the fields and raises
  \<^verbatim>\<open>ValueError\<close> for a year outside 1..9999, a month outside 1..12 or a day the month
  does not have.
\<close>

definition dt_replace :: "int \<Rightarrow> int \<Rightarrow> int \<Rightarrow> exn + datetime" where
  "dt_replace y m d =
     (if MINYEAR \<le> y \<and> y \<le> MAXYEAR \<and> 1 \<le> m \<and> m \<le> 12 \<and> 1 \<le> d \<and> d \<le> days_in_month y m
      then Inr \<lparr>year = y, month = m, day = d\<rparr>
      else Inl ValueError)"

text \<open>\<^verbatim>\<open>d + timedelta(days=1)\<close>.\<close>

definition add_day :: "date \<Rightarrow> exn + date" where
  "add_day d = (if 0 < d + 1 \<and> d + 1 \<le> MAXORDINAL then Inr (d + 1) else Inl OverflowError)"

section \<open>Reservations, the collaborators and the responses\<close>

text \<open>
  A reservation as \<^verbatim>\<open>ReservationClient.get_reservations\<close> returns it: a dictionary with
  the keys \<^verbatim>\<open>reservationId\<close>, \<^verbatim>\<open>bookedBy\<close>, \<^verbatim>\<open>startDate\<close>, \<^verbatim>\<open>endDate\<close> and
  \<^verbatim>\<open>createdAt\<close>; the two dates are ISO timestamps in text.
\<close>

record 'i reservation =
  reservationId :: 'i
  bookedBy :: string
  startDate :: string
  endDate :: string
  createdAt :: string

text \<open>
  The dictionary the tools build for an occupying or conflicting reservation (keys
  \<^verbatim>\<open>id\<close>, \<^verbatim>\<open>booked_by\<close>, \<^verbatim>\<open>start_date\<close>, \<^verbatim>\<open>end_date\<close>, \<^verbatim>\<open>created_at\<close>), and
  \<open>summary\<close>, which builds it from a reservation and its two parsed dates.
\<close>

record 'i conflict =
  id' :: 'i
  booked_by :: string
  start_date :: date
  end_date :: date
  created_at :: string

definition summary :: "'i reservation \<Rightarrow> date \<Rightarrow> date \<Rightarrow> 'i conflict" where
  "summary reservation start_d end_d =
     \<lparr>id' = reservationId reservation, booked_by = bookedBy reservation,
      start_date = start_d, end_date = end_d, created_at = createdAt reservation\<rparr>"

text \<open>
  What the tools call outside \<^verbatim>\<open>server.py\<close>:
  \<^item> \<open>strptime s\<close> is \<^verbatim>\<open>datetime.strptime(s, '%Y-%m-%d')\<close>, \<open>None\<close> when it raises
    \<^verbatim>\<open>ValueError\<close>;
  \<^item> \<open>fromisoformat s\<close> is \<^verbatim>\<open>datetime.fromisoformat(s.replace('Z', '+00:00')).date()\<close>,
    \<open>None\<close> when it raises \<^verbatim>\<open>ValueError\<close>;
  \<^item> \<open>get_reservations entity_id year month\<close> is the fetch collaborator
    \<^verbatim>\<open>client.get_reservations\<close>;
  \<^item> \<open>set_order ms\<close> is the order in which Python iterates the set built by adding
    the elements of \<open>ms\<close>;
  \<^item> \<open>reparse d\<close> is \<^verbatim>\<open>datetime.strptime(d.strftime('%Y-%m-%d'), '%Y-%m-%d').date()\<close>,
    \<open>None\<close> when \<^verbatim>\<open>strptime\<close> raises \<^verbatim>\<open>ValueError\<close> (a year below 1000 that
    \<^verbatim>\<open>strftime\<close> wrote without leading zeros): the range check keeps the dates of a
    conflict as text and parses the text back before each comparison.
  The fetch collaborator is taken to return a list of reservations with all five keys
  (it returns the empty list for a response that is not a success); an exception of
  the network layer is outside the model.
\<close>

record 'i env =
  strptime :: "string \<Rightarrow> datetime option"
  fromisoformat :: "string \<Rightarrow> date option"
  get_reservations :: "string \<Rightarrow> int \<Rightarrow> int \<Rightarrow> 'i reservation list"
  set_order :: "(int \<times> int) list \<Rightarrow> (int \<times> int) list"
  reparse :: "date \<Rightarrow> date option"

text \<open>
  The three \<^verbatim>\<open>{'error': ...}\<close> dictionaries: the two \<^verbatim>\<open>except\<close> clauses and the
  check of the range.
\<close>

datatype error = InvalidDateFormat | FailedToCheck | StartNotBeforeEnd

fun handler :: "exn \<Rightarrow> error" where
  "handler ValueError = InvalidDateFormat"
| "handler OverflowError = FailedToCheck"

text \<open>
  The responses. \<open>DateOccupied date entity_id reservation\<close> is the dictionary with
  \<^verbatim>\<open>'available': False\<close>, \<open>DateAvailable date entity_id\<close> the one with
  \<^verbatim>\<open>'available': True\<close>. \<open>RangeAvailable entity_id start_date end_date\<close> has
  \<^verbatim>\<open>'available': True\<close> and the requested period only;
  \<open>RangeConflicts entity_id start_date end_date conflicts available_periods\<close> has
  \<^verbatim>\<open>'available': False\<close>. The \<^verbatim>\<open>message\<close> texts are built from these fields and are
  left out.
\<close>

datatype 'i date_response =
  DateError error
| DateOccupied string string "'i conflict"
| DateAvailable string string

datatype 'i range_response =
  RangeError error
| RangeAvailable string string string
| RangeConflicts string string string "'i conflict list" "(date \<times> date) list"

section \<open>check\_date\_availability\<close>

text \<open>
  The loop over the reservations of the month: the first reservation with
  \<^verbatim>\<open>start_date.date() <= check_date.date() < end_date.date()\<close> is returned.
\<close>

fun find_reservation ::
  "'i env \<Rightarrow> date \<Rightarrow> 'i reservation list \<Rightarrow> exn + 'i conflict option" where
  "find_reservation E d [] = Inr None"
| "find_reservation E d (reservation # rest) =
     (case fromisoformat E (startDate reservation) of
        None \<Rightarrow> Inl ValueError
      | Some start_d \<Rightarrow>
          (case fromisoformat E (endDate reservation) of
             None \<Rightarrow> Inl ValueError
           | Some end_d \<Rightarrow>
               if start_d \<le> d \<and> d < end_d
               then Inr (Some (summary reservation start_d end_d))
               else find_reservation E d rest))"

definition check_date_availability :: "'i env \<Rightarrow> string \<Rightarrow> string \<Rightarrow> 'i date_response" where
  "check_date_availability E entity_id date =
     (case strptime E date of
        None \<Rightarrow> DateError (handler ValueError)
      | Some check_date \<Rightarrow>
          (case find_reservation E (date_of check_date)
                  (get_reservations E entity_id (year check_date) (month check_date)) of
             Inl e \<Rightarrow> DateError (handler e)
           | Inr (Some r) \<Rightarrow> DateOccupied date entity_id r
           | Inr None \<Rightarrow> DateAvailable date entity_id))"

section \<open>check\_date\_range\_availability\<close>

subsection \<open>The months to fetch\<close>

text \<open>
  The \<^verbatim>\<open>while current <= end_dt\<close> loop. \<^verbatim>\<open>months_to_check\<close> is a set; it is kept as a
  list without duplicates (\<open>List.insert\<close> adds an element that is not there yet).
\<close>

function months_loop ::
  "datetime \<Rightarrow> datetime \<Rightarrow> (int \<times> int) list \<Rightarrow> exn + (int \<times> int) list" where
  "months_loop current end_dt months_to_check =
     (if dt_le current end_dt then
        (case (if month current = 12
               then dt_replace (year current + 1) 1 (day current)
               else dt_replace (year current) (month current + 1) (day current)) of
           Inl e \<Rightarrow> Inl e
         | Inr current' \<Rightarrow>
             months_loop current' end_dt
               (List.insert (year current, month current) months_to_check))
      else Inr months_to_check)"
  by pat_completeness auto
termination
proof (relation "measure (\<lambda>(c, e, ms). nat (12 * year e + 13 - (12 * year c + month c)))")
  show "wf (measure (\<lambda>(c, e, ms). nat (12 * year e + 13 - (12 * year c + month c))))"
    by simp
next
  fix current end_dt :: datetime and months_to_check :: "(int \<times> int) list" and x2
  assume le: "dt_le current end_dt"
    and step: "(if month current = 12
                then dt_replace (year current + 1) 1 (day current)
                else dt_replace (year current) (month current + 1) (day current)) = Inr x2"
  have y: "year current \<le> year end_dt"
    using le by (auto simp: dt_le_def)
  show "((x2, end_dt, List.insert (year current, month current) months_to_check),
         (current, end_dt, months_to_check))
        \<in> measure (\<lambda>(c, e, ms). nat (12 * year e + 13 - (12 * year c + month c)))"
  proof (cases "month current = 12")
    case True
    with step have "year x2 = year current + 1 \<and> month x2 = 1"
      by (auto simp: dt_replace_def split: if_splits)
    with True y show ?thesis by simp
  next
    case False
    with step have "year x2 = year current \<and> month x2 = month current + 1 \<and> month x2 \<le> 12"
      by (auto simp: dt_replace_def split: if_splits)
    with y show ?thesis by simp
  qed
qed

definition months_to_check :: "datetime \<Rightarrow> datetime \<Rightarrow> exn + (int \<times> int) list" where
  "months_to_check start_dt end_dt =
     (case dt_replace (year start_dt) (month start_dt) 1 of
        Inl e \<Rightarrow> Inl e
      | Inr current \<Rightarrow> months_loop current end_dt [])"

text \<open>
  The \<^verbatim>\<open>for year, month in months_to_check\<close> loop: the arguments of the calls of the
  fetch collaborator, in the order of the calls, and the reservations it collects.
\<close>

definition fetch_calls :: "'i env \<Rightarrow> datetime \<Rightarrow> datetime \<Rightarrow> exn + (int \<times> int) list" where
  "fetch_calls E start_dt end_dt =
     (case months_to_check start_dt end_dt of
        Inl e \<Rightarrow> Inl e
      | Inr ms \<Rightarrow> Inr (set_order E ms))"

definition all_reservations ::
  "'i env \<Rightarrow> string \<Rightarrow> datetime \<Rightarrow> datetime \<Rightarrow> exn + 'i reservation list" where
  "all_reservations E entity_id start_dt end_dt =
     (case fetch_calls E start_dt end_dt of
        Inl e \<Rightarrow> Inl e
      | Inr calls \<Rightarrow> Inr (concat (map (\<lambda>(y, m). get_reservations E entity_id y m) calls)))"

subsection \<open>The conflicts\<close>

text \<open>
  The loop over all reservations: a reservation with
  \<^verbatim>\<open>start_dt.date() < res_end and end_dt.date() > res_start\<close> is appended to
  \<^verbatim>\<open>conflicts\<close>, in the order of the reservations.
\<close>

fun find_conflicts ::
  "'i env \<Rightarrow> date \<Rightarrow> date \<Rightarrow> 'i reservation list \<Rightarrow> 'i conflict list
   \<Rightarrow> exn + 'i conflict list" where
  "find_conflicts E s e [] conflicts = Inr conflicts"
| "find_conflicts E s e (reservation # rest) conflicts =
     (case fromisoformat E (startDate reservation) of
        None \<Rightarrow> Inl ValueError
      | Some res_start \<Rightarrow>
          (case fromisoformat E (endDate reservation) of
             None \<Rightarrow> Inl ValueError
           | Some res_end \<Rightarrow>
               if s < res_end \<and> e > res_start
               then find_conflicts E s e rest
                      (conflicts @ [summary reservation res_start res_end])
               else find_conflicts E s e rest conflicts))"

subsection \<open>The available periods\<close>

text \<open>
  The \<^verbatim>\<open>for conflict in conflicts\<close> loops with their \<^verbatim>\<open>break\<close>: the first conflict with
  \<^verbatim>\<open>conflict_start <= d < conflict_end\<close>, if there is one. The two dates of each
  conflict are parsed back from their text before the test.
\<close>

fun blocking_reservation ::
  "'i env \<Rightarrow> date \<Rightarrow> 'i conflict list \<Rightarrow> exn + 'i conflict option" where
  "blocking_reservation E d [] = Inr None"
| "blocking_reservation E d (conflict # rest) =
     (case reparse E (start_date conflict) of
        None \<Rightarrow> Inl ValueError
      | Some conflict_start \<Rightarrow>
          (case reparse E (end_date conflict) of
             None \<Rightarrow> Inl ValueError
           | Some conflict_end \<Rightarrow>
               if conflict_start \<le> d \<and> d < conflict_end then Inr (Some conflict)
               else blocking_reservation E d rest))"

text \<open>The inner \<^verbatim>\<open>while period_end < end_dt.date()\<close> loop: the end of a free run.\<close>

function find_period_end :: "'i env \<Rightarrow> 'i conflict list \<Rightarrow> date \<Rightarrow> date \<Rightarrow> exn + date" where
  "find_period_end E conflicts e period_end =
     (if period_end < e then
        (case add_day period_end of
           Inl x \<Rightarrow> Inl x
         | Inr next_day \<Rightarrow>
             (case blocking_reservation E next_day conflicts of
                Inl x \<Rightarrow> Inl x
              | Inr None \<Rightarrow> find_period_end E conflicts e next_day
              | Inr (Some c) \<Rightarrow> Inr period_end))
      else Inr period_end)"
  by pat_completeness auto
termination
  by (relation "measure (\<lambda>(E, cs, e, p). nat (e - p))")
     (auto simp: add_day_def split: if_splits)

text \<open>
  One pass through the body of the outer \<^verbatim>\<open>while current_date < end_dt.date()\<close> loop:
  the next value of \<^verbatim>\<open>current_date\<close> and the period appended to
  \<^verbatim>\<open>available_periods\<close>, if any. In the blocked branch the end date of the blocking
  reservation is parsed once more.
\<close>

definition scan_step ::
  "'i env \<Rightarrow> 'i conflict list \<Rightarrow> date \<Rightarrow> date \<Rightarrow> exn + (date \<times> (date \<times> date) option)" where
  "scan_step E conflicts e current_date =
     (case blocking_reservation E current_date conflicts of
        Inl x \<Rightarrow> Inl x
      | Inr None \<Rightarrow>
          (case find_period_end E conflicts e current_date of
             Inl x \<Rightarrow> Inl x
           | Inr period_end \<Rightarrow>
               (case add_day period_end of
                  Inl x \<Rightarrow> Inl x
                | Inr next \<Rightarrow> Inr (next, Some (current_date, period_end))))
      | Inr (Some blocking) \<Rightarrow>
          (case reparse E (end_date blocking) of
             None \<Rightarrow> Inl ValueError
           | Some conflict_end \<Rightarrow> Inr (conflict_end, None)))"

lemma add_day_Inr: "add_day d = Inr n \<Longrightarrow> n = d + 1"
  by (simp add: add_day_def split: if_splits)

lemma blocking_reservation_Some:
  "blocking_reservation E d cs = Inr (Some c) \<Longrightarrow>
   c \<in> set cs \<and>
   (\<exists>s e. reparse E (start_date c) = Some s \<and> reparse E (end_date c) = Some e \<and>
          s \<le> d \<and> d < e)"
  by (induction cs) (auto split: option.splits if_splits)

lemma find_period_end_ge: "find_period_end E cs e p = Inr q \<Longrightarrow> p \<le> q"
proof (induction E cs e p rule: find_period_end.induct)
  case (1 E conflicts e period_end)
  show ?case
  proof (cases "period_end < e")
    case False
    with "1.prems" show ?thesis by simp
  next
    case True
    show ?thesis
    proof (cases "add_day period_end")
      case (Inl x)
      with True "1.prems" show ?thesis by simp
    next
      case (Inr next_day)
      then have n: "next_day = period_end + 1" by (rule add_day_Inr)
      show ?thesis
      proof (cases "blocking_reservation E next_day conflicts")
        case (Inl x)
        with True Inr "1.prems" show ?thesis by simp
      next
        case b: (Inr found)
        show ?thesis
        proof (cases found)
          case None
          with True Inr b "1.prems" have "find_period_end E conflicts e next_day = Inr q"
            by simp
          with "1.IH" [OF True Inr b None] n show ?thesis by simp
        next
          case (Some c)
          with True Inr b "1.prems" show ?thesis by simp
        qed
      qed
    qed
  qed
qed

lemma scan_step_advances: "scan_step E cs e cur = Inr (next, p) \<Longrightarrow> cur < next"
proof -
  assume st: "scan_step E cs e cur = Inr (next, p)"
  then obtain found where f: "blocking_reservation E cur cs = Inr found"
    by (auto simp: scan_step_def split: sum.splits)
  show ?thesis
  proof (cases found)
    case None
    with st f obtain q where q: "find_period_end E cs e cur = Inr q"
      and a: "add_day q = Inr next"
      by (auto simp: scan_step_def split: sum.splits)
    from find_period_end_ge [OF q] add_day_Inr [OF a] show ?thesis by simp
  next
    case (Some b)
    with st f have "reparse E (end_date b) = Some next"
      by (auto simp: scan_step_def split: option.splits)
    moreover from f Some have "blocking_reservation E cur cs = Inr (Some b)" by simp
    from blocking_reservation_Some [OF this] obtain e' where
      "reparse E (end_date b) = Some e'" "cur < e'" by blast
    ultimately show ?thesis by simp
  qed
qed

text \<open>The outer \<^verbatim>\<open>while current_date < end_dt.date()\<close> loop.\<close>

function scan ::
  "'i env \<Rightarrow> 'i conflict list \<Rightarrow> date \<Rightarrow> date \<Rightarrow> (date \<times> date) list
   \<Rightarrow> exn + (date \<times> date) list" where
  "scan E conflicts e current_date available_periods =
     (if current_date < e then
        (case scan_step E conflicts e current_date of
           Inl x \<Rightarrow> Inl x
         | Inr (next, None) \<Rightarrow> scan E conflicts e next available_periods
         | Inr (next, Some period) \<Rightarrow> scan E conflicts e next (available_periods @ [period]))
      else Inr available_periods)"
  by pat_completeness auto
termination
  by (relation "measure (\<lambda>(E, cs, e, c, ps). nat (e - c))")
     (auto dest: scan_step_advances)

text \<open>The number of passes through the body of the outer loop.\<close>

function scan_iterations :: "'i env \<Rightarrow> 'i conflict list \<Rightarrow> date \<Rightarrow> date \<Rightarrow> nat" where
  "scan_iterations E conflicts e current_date =
     (if current_date < e then
        (case scan_step E conflicts e current_date of
           Inl x \<Rightarrow> 1
         | Inr (next, period) \<Rightarrow> 1 + scan_iterations E conflicts e next)
      else 0)"
  by pat_completeness auto
termination
  by (relation "measure (\<lambda>(E, cs, e, c). nat (e - c))")
     (auto dest: scan_step_advances)

subsection \<open>The tool\<close>

definition range_body ::
  "'i env \<Rightarrow> string \<Rightarrow> string \<Rightarrow> string \<Rightarrow> datetime \<Rightarrow> datetime
   \<Rightarrow> exn + 'i range_response" where
  "range_body E entity_id start_date' end_date' start_dt end_dt =
     (case all_reservations E entity_id start_dt end_dt of
        Inl x \<Rightarrow> Inl x
      | Inr reservations \<Rightarrow>
          (case find_conflicts E (date_of start_dt) (date_of end_dt) reservations [] of
             Inl x \<Rightarrow> Inl x
           | Inr conflicts \<Rightarrow>
               if conflicts = [] then Inr (RangeAvailable entity_id start_date' end_date')
               else
                 (case scan E conflicts (date_of end_dt) (date_of start_dt) [] of
                    Inl x \<Rightarrow> Inl x
                  | Inr available_periods \<Rightarrow>
                      Inr (RangeConflicts entity_id start_date' end_date'
                             conflicts available_periods))))"

definition check_date_range_availability ::
  "'i env \<Rightarrow> string \<Rightarrow> string \<Rightarrow> string \<Rightarrow> 'i range_response" where
  "check_date_range_availability E entity_id start_date' end_date' =
     (case strptime E start_date' of
        None \<Rightarrow> RangeError (handler ValueError)
      | Some start_dt \<Rightarrow>
          (case strptime E end_date' of
             None \<Rightarrow> RangeError (handler ValueError)
           | Some end_dt \<Rightarrow>
               if dt_le end_dt start_dt then RangeError StartNotBeforeEnd
               else
                 (case range_body E entity_id start_date' end_date' start_dt end_dt of
                    Inl x \<Rightarrow> RangeError (handler x)
                  | Inr response \<Rightarrow> response)))"

section \<open>Vocabulary of the properties\<close>

text \<open>
  The two timestamps of a reservation parse (\<open>parses\<close>); its dates cover a day
  (\<open>covers\<close>: start \<open>\<le>\<close> day \<open><\<close> end) or intersect a range (\<open>intersects\<close>: start
  before the end of the range, end after its start); \<open>conflict_of\<close> is the dictionary
  built for it. \<open>valid_dt\<close> holds of the datetimes \<^verbatim>\<open>strptime\<close> returns.
  \<open>months_between a b\<close> are the calendar months from the month of \<open>a\<close> through the
  month of \<open>b\<close>. \<open>iterates_once\<close> says that iterating a set yields each element once.
\<close>

definition parses :: "'i env \<Rightarrow> 'i reservation \<Rightarrow> bool" where
  "parses E r = (fromisoformat E (startDate r) \<noteq> None \<and> fromisoformat E (endDate r) \<noteq> None)"

definition covers :: "'i env \<Rightarrow> date \<Rightarrow> 'i reservation \<Rightarrow> bool" where
  "covers E d r =
     (case fromisoformat E (startDate r) of
        None \<Rightarrow> False
      | Some a \<Rightarrow> (case fromisoformat E (endDate r) of None \<Rightarrow> False | Some b \<Rightarrow> a \<le> d \<and> d < b))"

definition intersects :: "'i env \<Rightarrow> date \<Rightarrow> date \<Rightarrow> 'i reservation \<Rightarrow> bool" where
  "intersects E s e r =
     (case fromisoformat E (startDate r) of
        None \<Rightarrow> False
      | Some a \<Rightarrow> (case fromisoformat E (endDate r) of None \<Rightarrow> False | Some b \<Rightarrow> a < e \<and> b > s))"

definition conflict_of :: "'i env \<Rightarrow> 'i reservation \<Rightarrow> 'i conflict" where
  "conflict_of E r =
     summary r (the (fromisoformat E (startDate r))) (the (fromisoformat E (endDate r)))"

definition valid_dt :: "datetime \<Rightarrow> bool" where
  "valid_dt dt =
     (MINYEAR \<le> year dt \<and> year dt \<le> MAXYEAR \<and> 1 \<le> month dt \<and> month dt \<le> 12 \<and>
      1 \<le> day dt \<and> day dt \<le> days_in_month (year dt) (month dt))"

definition month_index :: "int \<times> int \<Rightarrow> int" where
  "month_index ym = 12 * fst ym + snd ym"

definition months_between :: "datetime \<Rightarrow> datetime \<Rightarrow> (int \<times> int) set" where
  "months_between a b =
     {ym. 1 \<le> snd ym \<and> snd ym \<le> 12 \<and>
          month_index (year a, month a) \<le> month_index ym \<and>
          month_index ym \<le> month_index (year b, month b)}"

definition iterates_once :: "'i env \<Rightarrow> bool" where
  "iterates_once E =
     (\<forall>ms. distinct ms \<longrightarrow> distinct (set_order E ms) \<and> set (set_order E ms) = set ms)"

text \<open>
  A day lies in a conflict, or in an available period read as a half-open interval;
  \<open>exact_cover s e conflicts periods\<close> holds when every day from \<open>s\<close> up to, not
  including, \<open>e\<close> lies in a conflict or in a period and not in both.
\<close>

definition in_conflict :: "date \<Rightarrow> 'i conflict list \<Rightarrow> bool" where
  "in_conflict d conflicts = list_ex (\<lambda>c. start_date c \<le> d \<and> d < end_date c) conflicts"

definition in_period :: "date \<Rightarrow> (date \<times> date) list \<Rightarrow> bool" where
  "in_period d periods = list_ex (\<lambda>p. fst p \<le> d \<and> d < snd p) periods"

definition exact_cover :: "date \<Rightarrow> date \<Rightarrow> 'i conflict list \<Rightarrow> (date \<times> date) list \<Rightarrow> bool" where
  "exact_cover s e conflicts periods =
     list_all (\<lambda>d. in_conflict d conflicts \<noteq> in_period d periods) [s..e - 1]"

text \<open>
  The dates of a conflict are parsed back from their text unchanged (\<open>reparses\<close>).
  \<open>intersecting E s e rs\<close> are the dictionaries of the reservations among \<open>rs\<close> that
  intersect the range from \<open>s\<close> to \<open>e\<close>, in the order of \<open>rs\<close>. \<open>yyyy_mm_dd\<close> holds of
  a text of four digits, a hyphen, two digits, a hyphen and two digits.
\<close>

definition reparses :: "'i env \<Rightarrow> 'i conflict \<Rightarrow> bool" where
  "reparses E c =
     (reparse E (start_date c) = Some (start_date c) \<and> reparse E (end_date c) = Some (end_date c))"

definition intersecting :: "'i env \<Rightarrow> date \<Rightarrow> date \<Rightarrow> 'i reservation list \<Rightarrow> 'i conflict list" where
  "intersecting E s e rs = map (conflict_of E) (filter (intersects E s e) rs)"

definition is_digit :: "char \<Rightarrow> bool" where
  "is_digit c = (c \<in> set ''0123456789'')"

definition yyyy_mm_dd :: "string \<Rightarrow> bool" where
  "yyyy_mm_dd s =
     (length s = 10 \<and> list_all is_digit (take 4 s) \<and> take 1 (drop 4 s) = ''-'' \<and>
      list_all is_digit (take 2 (drop 5 s)) \<and> take 1 (drop 7 s) = ''-'' \<and>
      list_all is_digit (drop 8 s))"

section \<open>An example deployment\<close>

text \<open>
  A stand-in for the library and the backend on the inputs of the examples below:
  \<^verbatim>\<open>strptime\<close> and \<^verbatim>\<open>fromisoformat\<close> as tables of the texts that occur, a backend
  that holds the reservations \<open>rs\<close> for March 2024 and nothing else, a set that is
  iterated in the order of insertion, and dates (of the years 2024 and 9999) that are
  parsed back from their text unchanged. \<^verbatim>\<open>strptime\<close> accepts a month and a day of one
  digit: \<^verbatim>\<open>'2024-3-1'\<close> is parsed as the first of March.
\<close>

definition example_strptime :: "string \<Rightarrow> datetime option" where
  "example_strptime =
     map_of [(''2024-03-01'', \<lparr>year = 2024, month = 3, day = 1\<rparr>),
             (''2024-3-1'', \<lparr>year = 2024, month = 3, day = 1\<rparr>),
             (''2024-03-07'', \<lparr>year = 2024, month = 3, day = 7\<rparr>),
             (''2024-03-10'', \<lparr>year = 2024, month = 3, day = 10\<rparr>),
             (''2024-03-15'', \<lparr>year = 2024, month = 3, day = 15\<rparr>),
             (''2024-03-20'', \<lparr>year = 2024, month = 3, day = 20\<rparr>),
             (''9999-11-15'', \<lparr>year = 9999, month = 11, day = 15\<rparr>),
             (''9999-12-01'', \<lparr>year = 9999, month = 12, day = 1\<rparr>),
             (''9999-12-15'', \<lparr>year = 9999, month = 12, day = 15\<rparr>)]"

definition example_fromisoformat :: "string \<Rightarrow> date option" where
  "example_fromisoformat =
     map_of [(''2024-03-05T00:00:00Z'', ymd2ord 2024 3 5),
             (''2024-03-10T00:00:00Z'', ymd2ord 2024 3 10)]"

definition example_env :: "int reservation list \<Rightarrow> int env" where
  "example_env rs =
     \<lparr>strptime = example_strptime, fromisoformat = example_fromisoformat,
      get_reservations = (\<lambda>entity_id y m. if y = 2024 \<and> m = 3 then rs else []),
      set_order = (\<lambda>ms. ms), reparse = Some\<rparr>"

definition booking :: "int reservation" where
  "booking = \<lparr>reservationId = 1, bookedBy = ''alice'',
              startDate = ''2024-03-05T00:00:00Z'', endDate = ''2024-03-10T00:00:00Z'',
              createdAt = ''2024-02-01T09:30:00Z''\<rparr>"

definition inverted_booking :: "int reservation" where
  "inverted_booking = \<lparr>reservationId = 1, bookedBy = ''alice'',
              startDate = ''2024-03-10T00:00:00Z'', endDate = ''2024-03-05T00:00:00Z'',
              createdAt = ''2024-02-01T09:30:00Z''\<rparr>"

section \<open>Lemmas about the loops\<close>

lemma find_reservation_find:
  "list_all (parses E) rs \<Longrightarrow>
   find_reservation E d rs = Inr (map_option (conflict_of E) (find (covers E d) rs))"
  by (induction rs) (auto simp: parses_def covers_def conflict_of_def)

lemma find_conflicts_filter:
  "list_all (parses E) rs \<Longrightarrow>
   find_conflicts E s e rs acc = Inr (acc @ map (conflict_of E) (filter (intersects E s e) rs))"
  by (induction rs arbitrary: acc) (auto simp: parses_def intersects_def conflict_of_def)

lemma find_conflicts_Inr_parses:
  "find_conflicts E s e rs acc = Inr cs \<Longrightarrow> list_all (parses E) rs"
  by (induction rs arbitrary: acc) (auto simp: parses_def split: option.splits if_splits)

lemma dt_le_not_less: "dt_le b a \<longleftrightarrow> \<not> dt_less a b"
  by (auto simp: dt_le_def dt_less_def)

lemma scan_iterations_bound: "scan_iterations E cs e cur \<le> nat (e - cur)"
proof (induction E cs e cur rule: scan_iterations.induct)
  case (1 E conflicts e current_date)
  show ?case
  proof (cases "current_date < e")
    case False
    then show ?thesis by simp
  next
    case True
    show ?thesis
    proof (cases "scan_step E conflicts e current_date")
      case (Inl x)
      with True show ?thesis by simp
    next
      case (Inr np)
      obtain nxt p where np: "np = (nxt, p)" by (cases np)
      from Inr np have st: "scan_step E conflicts e current_date = Inr (nxt, p)" by simp
      from scan_step_advances [OF st] have adv: "current_date < nxt" .
      from "1.IH" [OF True st refl] have "scan_iterations E conflicts e nxt \<le> nat (e - nxt)" .
      with True st adv show ?thesis by simp
    qed
  qed
qed

lemma days_in_month_ge: "1 \<le> days_in_month y m"
  by (simp add: days_in_month_def)

lemma month_index_inj:
  fixes m m' y y' :: int
  assumes "1 \<le> m" "m \<le> 12" "1 \<le> m'" "m' \<le> 12" "12 * y + m = 12 * y' + m'"
  shows "y = y' \<and> m = m'"
proof -
  have "y \<le> y'" using assms by linarith
  moreover have "y' \<le> y" using assms by linarith
  ultimately have "y = y'" by simp
  with assms show ?thesis by simp
qed

lemma months_between_step:
  assumes c: "1 \<le> month c" "month c \<le> 12"
    and le: "month_index (year c, month c) \<le> month_index (year e, month e)"
    and y': "year c' = (if month c = 12 then year c + 1 else year c)"
    and m': "month c' = (if month c = 12 then 1 else month c + 1)"
  shows "months_between c e = insert (year c, month c) (months_between c' e)"
proof -
  have idx: "month_index (year c', month c') = month_index (year c, month c) + 1"
    using y' m' by (simp add: month_index_def)
  show ?thesis
  proof (rule set_eqI)
    fix ym :: "int \<times> int"
    obtain y m where ym: "ym = (y, m)" by (cases ym)
    show "ym \<in> months_between c e \<longleftrightarrow> ym \<in> insert (year c, month c) (months_between c' e)"
    proof
      assume "ym \<in> months_between c e"
      then have v: "1 \<le> m" "m \<le> 12" and lo: "12 * year c + month c \<le> 12 * y + m"
        and hi: "12 * y + m \<le> 12 * year e + month e"
        by (simp_all add: months_between_def month_index_def ym)
      show "ym \<in> insert (year c, month c) (months_between c' e)"
      proof (cases "12 * y + m = 12 * year c + month c")
        case True
        from month_index_inj [OF v c True] show ?thesis by (simp add: ym)
      next
        case False
        with lo have "12 * year c + month c + 1 \<le> 12 * y + m" by simp
        with v hi idx show ?thesis
          by (simp add: months_between_def month_index_def ym)
      qed
    next
      assume "ym \<in> insert (year c, month c) (months_between c' e)"
      then consider "ym = (year c, month c)" | "ym \<in> months_between c' e" by blast
      then show "ym \<in> months_between c e"
      proof cases
        case 1
        with c le show ?thesis by (simp add: months_between_def month_index_def)
      next
        case 2
        with idx show ?thesis by (simp add: months_between_def month_index_def ym)
      qed
    qed
  qed
qed

lemma months_between_empty:
  "month_index (year e, month e) < month_index (year c, month c) \<Longrightarrow> months_between c e = {}"
  by (auto simp: months_between_def)

lemma months_loop_months:
  assumes "1 \<le> month c" "month c \<le> 12" "day c = 1" "MINYEAR \<le> year c"
    and "year e \<le> MAXYEAR" "1 \<le> month e" "month e \<le> 12" "1 \<le> day e"
    and "\<not> (year e = MAXYEAR \<and> month e = 12)"
  shows "\<exists>ms. months_loop c e acc = Inr ms \<and> set ms = set acc \<union> months_between c e \<and>
              (distinct acc \<longrightarrow> distinct ms)"
  using assms
proof (induction c e acc rule: months_loop.induct)
  case (1 current end_dt months_to_check)
  show ?case
  proof (cases "dt_le current end_dt")
    case False
    with "1.prems" have "month_index (year end_dt, month end_dt)
        < month_index (year current, month current)"
      by (auto simp: dt_le_def month_index_def)
    from months_between_empty [OF this] False show ?thesis by simp
  next
    case True
    with "1.prems" have le: "month_index (year current, month current)
        \<le> month_index (year end_dt, month end_dt)"
      by (auto simp: dt_le_def month_index_def)
    define c' where "c' = \<lparr>year = (if month current = 12 then year current + 1 else year current),
                           month = (if month current = 12 then 1 else month current + 1),
                           day = 1\<rparr>"
    have yb: "month current = 12 \<Longrightarrow> year current + 1 \<le> MAXYEAR"
      using True "1.prems" by (auto simp: dt_le_def)
    have yle: "year current \<le> MAXYEAR"
      using True "1.prems" by (auto simp: dt_le_def)
    have step: "(if month current = 12
                 then dt_replace (year current + 1) 1 (day current)
                 else dt_replace (year current) (month current + 1) (day current)) = Inr c'"
      using "1.prems" yb yle
      by (simp add: dt_replace_def c'_def days_in_month_ge)
    have "\<exists>ms. months_loop c' end_dt (List.insert (year current, month current) months_to_check)
             = Inr ms \<and>
           set ms = set (List.insert (year current, month current) months_to_check)
                    \<union> months_between c' end_dt \<and>
           (distinct (List.insert (year current, month current) months_to_check)
              \<longrightarrow> distinct ms)"
      using "1.prems" by (intro "1.IH" [OF True step]) (auto simp: c'_def MINYEAR_def)
    then obtain ms where ms: "months_loop c' end_dt
          (List.insert (year current, month current) months_to_check) = Inr ms"
      and s: "set ms = set (List.insert (year current, month current) months_to_check)
                    \<union> months_between c' end_dt"
      and d: "distinct (List.insert (year current, month current) months_to_check)
              \<longrightarrow> distinct ms"
      by blast
    have mb: "months_between current end_dt
        = insert (year current, month current) (months_between c' end_dt)"
      using "1.prems" le by (intro months_between_step) (simp_all add: c'_def)
    have eq: "months_loop current end_dt months_to_check = Inr ms"
      using True step ms by (subst months_loop.simps) simp
    from s mb d have "set ms = set months_to_check \<union> months_between current end_dt \<and>
        (distinct months_to_check \<longrightarrow> distinct ms)"
      by auto
    with eq show ?thesis by blast
  qed
qed

lemma find_reservation_Some:
  "find_reservation E d rs = Inr (Some c) \<Longrightarrow> start_date c \<le> d \<and> d < end_date c"
  by (induction rs) (auto simp: summary_def split: option.splits if_splits)

lemma summary_in_conflicts:
  assumes "r \<in> set rs"
    and "fromisoformat E (startDate r) = Some res_start"
    and "fromisoformat E (endDate r) = Some res_end"
  shows "summary r res_start res_end \<in> set (map (conflict_of E) (filter (intersects E s e) rs))
           \<longleftrightarrow> res_start < e \<and> res_end > s"
proof
  assume "summary r res_start res_end \<in> set (map (conflict_of E) (filter (intersects E s e) rs))"
  then obtain r' where r': "intersects E s e r'"
    and eq: "conflict_of E r' = summary r res_start res_end"
    by auto
  from r' obtain a' b' where ab: "fromisoformat E (startDate r') = Some a'"
      "fromisoformat E (endDate r') = Some b'" "a' < e" "b' > s"
    by (auto simp: intersects_def split: option.splits)
  from eq ab have "a' = res_start" "b' = res_end"
    by (simp_all add: conflict_of_def summary_def)
  with ab show "res_start < e \<and> res_end > s" by simp
next
  assume "res_start < e \<and> res_end > s"
  with assms(2,3) have "intersects E s e r"
    by (simp add: intersects_def)
  moreover have "conflict_of E r = summary r res_start res_end"
    using assms(2,3) by (simp add: conflict_of_def)
  ultimately show "summary r res_start res_end
      \<in> set (map (conflict_of E) (filter (intersects E s e) rs))"
    using assms(1) by force
qed

lemma months_to_check_months:
  assumes "valid_dt start_dt" and "valid_dt end_dt"
    and "\<not> (year end_dt = MAXYEAR \<and> month end_dt = 12)"
  shows "\<exists>ms. months_to_check start_dt end_dt = Inr ms \<and> distinct ms \<and>
              set ms = months_between start_dt end_dt"
proof -
  define c where "c = \<lparr>year = year start_dt, month = month start_dt, day = 1\<rparr>"
  have r: "dt_replace (year start_dt) (month start_dt) 1 = Inr c"
    using assms(1) by (simp add: dt_replace_def valid_dt_def c_def days_in_month_ge)
  have "\<exists>ms. months_loop c end_dt [] = Inr ms \<and> set ms = set [] \<union> months_between c end_dt \<and>
              (distinct [] \<longrightarrow> distinct ms)"
    using assms(1-3) months_loop_months [of c end_dt "[]"]
    by (simp add: valid_dt_def c_def)
  then obtain ms where ms: "months_loop c end_dt [] = Inr ms"
    and s: "set ms = months_between c end_dt" and d: "distinct ms"
    by auto
  have "months_between c end_dt = months_between start_dt end_dt"
    by (simp add: months_between_def c_def)
  with ms s d r show ?thesis
    by (simp add: months_to_check_def)
qed

lemma fetch_calls_months:
  assumes "valid_dt start_dt" and "valid_dt end_dt"
    and "\<not> (year end_dt = MAXYEAR \<and> month end_dt = 12)"
    and "iterates_once E"
  shows "\<exists>calls. fetch_calls E start_dt end_dt = Inr calls \<and> distinct calls \<and>
                 set calls = months_between start_dt end_dt"
  using months_to_check_months [OF assms(1-3)] assms(4)
  by (auto simp: fetch_calls_def iterates_once_def)

lemma blocking_reservation_total:
  "list_all (reparses E) cs \<Longrightarrow> \<exists>found. blocking_reservation E d cs = Inr found"
  by (induction cs) (auto simp: reparses_def)

lemma find_period_end_total:
  "list_all (reparses E) cs \<Longrightarrow> 0 \<le> p \<Longrightarrow> e \<le> MAXORDINAL \<Longrightarrow>
   \<exists>q. find_period_end E cs e p = Inr q \<and> q \<le> max p e"
proof (induction E cs e p rule: find_period_end.induct)
  case (1 E conflicts e period_end)
  show ?case
  proof (cases "period_end < e")
    case False
    then show ?thesis by simp
  next
    case True
    with "1.prems" have a: "add_day period_end = Inr (period_end + 1)"
      by (simp add: add_day_def)
    from blocking_reservation_total [OF "1.prems"(1)] obtain found
      where b: "blocking_reservation E (period_end + 1) conflicts = Inr found" by blast
    show ?thesis
    proof (cases found)
      case None
      from "1.IH" [OF True a b None "1.prems"(1) _ "1.prems"(3)] "1.prems"(2)
      obtain q where "find_period_end E conflicts e (period_end + 1) = Inr q"
        and "q \<le> max (period_end + 1) e" by auto
      with True a b None show ?thesis by simp
    next
      case (Some c)
      with True a b show ?thesis by simp
    qed
  qed
qed

lemma scan_step_total:
  assumes "list_all (reparses E) cs" and "0 \<le> cur" and "cur < e" and "e < MAXORDINAL"
  shows "\<exists>next p. scan_step E cs e cur = Inr (next, p)"
proof -
  from blocking_reservation_total [OF assms(1)] obtain found
    where b: "blocking_reservation E cur cs = Inr found" by blast
  show ?thesis
  proof (cases found)
    case None
    from find_period_end_total [OF assms(1,2), of e] assms(4)
    obtain q where q: "find_period_end E cs e cur = Inr q" and le: "q \<le> max cur e" by auto
    from find_period_end_ge [OF q] assms(2) have "0 \<le> q" by simp
    with le assms(3,4) have "add_day q = Inr (q + 1)" by (simp add: add_day_def)
    with b None q show ?thesis by (simp add: scan_step_def)
  next
    case (Some c)
    with b have "blocking_reservation E cur cs = Inr (Some c)" by simp
    from blocking_reservation_Some [OF this] obtain e' where "reparse E (end_date c) = Some e'"
      by blast
    with b Some show ?thesis by (simp add: scan_step_def)
  qed
qed

lemma scan_total:
  "list_all (reparses E) cs \<Longrightarrow> 0 \<le> cur \<Longrightarrow> e < MAXORDINAL \<Longrightarrow>
   \<exists>periods. scan E cs e cur acc = Inr periods"
proof (induction E cs e cur acc rule: scan.induct)
  case (1 E conflicts e current_date available_periods)
  show ?case
  proof (cases "current_date < e")
    case False
    then show ?thesis by simp
  next
    case True
    from scan_step_total [OF "1.prems"(1,2) True "1.prems"(3)] obtain nxt p
      where st: "scan_step E conflicts e current_date = Inr (nxt, p)" by blast
    from scan_step_advances [OF st] "1.prems"(2) have n: "0 \<le> nxt" by simp
    show ?thesis
    proof (cases p)
      case None
      from "1.IH"(1) [OF True st [unfolded None] refl refl "1.prems"(1) n "1.prems"(3)]
      show ?thesis using True st None by simp
    next
      case (Some period)
      from "1.IH"(2) [OF True st [unfolded Some] refl refl "1.prems"(1) n "1.prems"(3)]
      show ?thesis using True st Some by simp
    qed
  qed
qed

lemma days_before_year_nonneg: "1 \<le> y \<Longrightarrow> 0 \<le> days_before_year y"
proof -
  assume y: "1 \<le> y"
  then have "(y - 1) div 100 \<le> (y - 1) div 4"
    by (intro zdiv_mono2) simp_all
  moreover from y have "0 \<le> (y - 1) div 400"
    by simp
  moreover from y have "0 \<le> (y - 1) * 365" by simp
  ultimately show ?thesis by (simp add: days_before_year_def)
qed

lemma days_before_month_bounds: "0 \<le> days_before_month y m \<and> days_before_month y m \<le> 335"
  by (simp add: days_before_month_def)

lemma days_in_month_le: "days_in_month y m \<le> 31"
  by (simp add: days_in_month_def)

lemma date_of_ge: "valid_dt dt \<Longrightarrow> 1 \<le> date_of dt"
  using days_before_year_nonneg [of "year dt"] days_before_month_bounds [of "year dt" "month dt"]
  by (simp add: valid_dt_def date_of_def ymd2ord_def MINYEAR_def)

lemma days_before_year_le: "1 \<le> y \<Longrightarrow> y \<le> 9998 \<Longrightarrow> days_before_year y \<le> 3651428"
proof -
  assume y: "1 \<le> y" "y \<le> 9998"
  then have "(y - 1) div 4 \<le> 9997 div 4" by (intro zdiv_mono1) simp_all
  moreover from y have "(y - 1) div 400 \<le> 9997 div 400" by (intro zdiv_mono1) simp_all
  moreover from y have "0 \<le> (y - 1) div 100" by simp
  moreover from y have "(y - 1) * 365 \<le> 9997 * 365" by simp
  ultimately show ?thesis by (simp add: days_before_year_def)
qed

lemma date_of_lt_max:
  assumes "valid_dt dt" and "\<not> (year dt = MAXYEAR \<and> month dt = 12)"
  shows "date_of dt < MAXORDINAL"
proof (cases "year dt \<le> 9998")
  case True
  with assms(1) have "days_before_year (year dt) \<le> 3651428"
    by (intro days_before_year_le) (simp_all add: valid_dt_def MINYEAR_def)
  with assms(1) days_before_month_bounds [of "year dt" "month dt"]
    days_in_month_le [of "year dt" "month dt"]
  show ?thesis
    by (simp add: valid_dt_def date_of_def ymd2ord_def MAXORDINAL_def)
next
  case False
  with assms have y: "year dt = 9999" and m: "month dt \<le> 11"
    by (simp_all add: valid_dt_def MAXYEAR_def)
  have "days_before_year 9999 = 3651694" by (simp add: days_before_year_def)
  moreover from assms(1) have m1: "1 \<le> month dt" by (simp add: valid_dt_def)
  from m m1 have "days_before_month 9999 (month dt) \<le> 304"
    unfolding days_before_month_def is_leap_def by simp presburger
  ultimately show ?thesis
    using assms(1) y days_in_month_le [of "year dt" "month dt"]
    by (simp add: valid_dt_def date_of_def ymd2ord_def MAXORDINAL_def)
qed

lemma months_loop_raises:
  assumes "1 \<le> month c" "month c \<le> 12" "day c = 1" "MINYEAR \<le> year c"
    and "year e = MAXYEAR" "month e = 12" "1 \<le> day e"
    and "month_index (year c, month c) \<le> month_index (year e, month e)"
  shows "months_loop c e acc = Inl ValueError"
  using assms
proof (induction c e acc rule: months_loop.induct)
  case (1 current end_dt months_to_check)
  from "1.prems" have yle: "year current \<le> MAXYEAR"
    by (simp add: month_index_def MAXYEAR_def)
  from "1.prems" have le: "dt_le current end_dt"
    by (auto simp: dt_le_def month_index_def MAXYEAR_def)
  show ?case
  proof (cases "month current = 12")
    case True
    show ?thesis
    proof (cases "year current = MAXYEAR")
      case y: True
      with True le show ?thesis
        by (subst months_loop.simps) (simp add: dt_replace_def)
    next
      case y: False
      define c' where "c' = \<lparr>year = year current + 1, month = 1, day = 1\<rparr>"
      from y yle True "1.prems" have step: "(if month current = 12
                 then dt_replace (year current + 1) 1 (day current)
                 else dt_replace (year current) (month current + 1) (day current)) = Inr c'"
        by (simp add: dt_replace_def c'_def days_in_month_ge MINYEAR_def)
      have "months_loop c' end_dt (List.insert (year current, month current) months_to_check)
              = Inl ValueError"
        using "1.prems" y yle True
        by (intro "1.IH" [OF le step]) (simp_all add: c'_def month_index_def MINYEAR_def MAXYEAR_def)
      with le step show ?thesis by (subst months_loop.simps) simp
    qed
  next
    case False
    define c' where "c' = \<lparr>year = year current, month = month current + 1, day = 1\<rparr>"
    from False yle "1.prems" have step: "(if month current = 12
                 then dt_replace (year current + 1) 1 (day current)
                 else dt_replace (year current) (month current + 1) (day current)) = Inr c'"
      by (simp add: dt_replace_def c'_def days_in_month_ge)
    have ne: "12 * year current + month current \<noteq> 12 * year end_dt + month end_dt"
    proof
      assume "12 * year current + month current = 12 * year end_dt + month end_dt"
      from month_index_inj [OF "1.prems"(1,2) _ _ this] "1.prems"(6) False show False by simp
    qed
    have "months_loop c' end_dt (List.insert (year current, month current) months_to_check)
              = Inl ValueError"
      using "1.prems" False ne
      by (intro "1.IH" [OF le step]) (simp_all add: c'_def month_index_def)
    with le step show ?thesis by (subst months_loop.simps) simp
  qed
qed

lemma months_to_check_not_december_9999:
  assumes "valid_dt start_dt" and "valid_dt end_dt" and "dt_less start_dt end_dt"
    and "months_to_check start_dt end_dt = Inr ms"
  shows "\<not> (year end_dt = MAXYEAR \<and> month end_dt = 12)"
proof
  assume d: "year end_dt = MAXYEAR \<and> month end_dt = 12"
  define c where "c = \<lparr>year = year start_dt, month = month start_dt, day = 1\<rparr>"
  have r: "dt_replace (year start_dt) (month start_dt) 1 = Inr c"
    using assms(1) by (simp add: dt_replace_def valid_dt_def c_def days_in_month_ge)
  from assms(1-3) have "month_index (year start_dt, month start_dt)
      \<le> month_index (year end_dt, month end_dt)"
    by (auto simp: dt_less_def month_index_def valid_dt_def)
  with assms(1,2) d have "months_loop c end_dt [] = Inl ValueError"
    by (intro months_loop_raises) (simp_all add: c_def valid_dt_def)
  with r assms(4) show False by (simp add: months_to_check_def)
qed

lemma all_reservations_total:
  assumes "valid_dt start_dt" and "valid_dt end_dt"
    and "\<not> (year end_dt = MAXYEAR \<and> month end_dt = 12)"
  shows "\<exists>rs. all_reservations E entity_id start_dt end_dt = Inr rs"
  using months_to_check_months [OF assms]
  by (auto simp: all_reservations_def fetch_calls_def)

lemma all_reservations_not_december_9999:
  assumes "valid_dt start_dt" and "valid_dt end_dt" and "dt_less start_dt end_dt"
    and "all_reservations E entity_id start_dt end_dt = Inr rs"
  shows "\<not> (year end_dt = MAXYEAR \<and> month end_dt = 12)"
proof -
  from assms(4) obtain ms where "months_to_check start_dt end_dt = Inr ms"
    by (auto simp: all_reservations_def fetch_calls_def split: sum.splits)
  from months_to_check_not_december_9999 [OF assms(1-3) this] show ?thesis .
qed

lemma range_response:
  assumes "strptime E start_date' = Some start_dt"
    and "strptime E end_date' = Some end_dt"
    and "dt_less start_dt end_dt"
    and "all_reservations E entity_id start_dt end_dt = Inr rs"
    and "list_all (parses E) rs"
  shows "check_date_range_availability E entity_id start_date' end_date' =
           (if intersecting E (date_of start_dt) (date_of end_dt) rs = []
            then RangeAvailable entity_id start_date' end_date'
            else (case scan E (intersecting E (date_of start_dt) (date_of end_dt) rs)
                         (date_of end_dt) (date_of start_dt) [] of
                    Inl x \<Rightarrow> RangeError (handler x)
                  | Inr periods \<Rightarrow>
                      RangeConflicts entity_id start_date' end_date'
                        (intersecting E (date_of start_dt) (date_of end_dt) rs) periods))"
proof -
  from find_conflicts_filter [OF assms(5), of "date_of start_dt" "date_of end_dt" "[]"]
  have "find_conflicts E (date_of start_dt) (date_of end_dt) rs []
      = Inr (intersecting E (date_of start_dt) (date_of end_dt) rs)"
    by (simp add: intersecting_def)
  with assms(1-4) show ?thesis
    by (simp add: check_date_range_availability_def range_body_def dt_le_not_less
             split: sum.splits)
qed

lemma range_response_conflicts:
  assumes "strptime E start_date' = Some start_dt"
    and "strptime E end_date' = Some end_dt"
    and "valid_dt start_dt" and "valid_dt end_dt"
    and "dt_less start_dt end_dt"
    and "all_reservations E entity_id start_dt end_dt = Inr rs"
    and "list_all (parses E) rs"
    and "list_all (reparses E) (intersecting E (date_of start_dt) (date_of end_dt) rs)"
    and "intersecting E (date_of start_dt) (date_of end_dt) rs \<noteq> []"
  shows "\<exists>periods. check_date_range_availability E entity_id start_date' end_date' =
           RangeConflicts entity_id start_date' end_date'
             (intersecting E (date_of start_dt) (date_of end_dt) rs) periods"
proof -
  from all_reservations_not_december_9999 [OF assms(3-6)]
  have "date_of end_dt < MAXORDINAL" by (intro date_of_lt_max assms(4))
  moreover from date_of_ge [OF assms(3)] have "0 \<le> date_of start_dt" by simp
  ultimately obtain periods where
    "scan E (intersecting E (date_of start_dt) (date_of end_dt) rs)
       (date_of end_dt) (date_of start_dt) [] = Inr periods"
    using scan_total [OF assms(8)] by blast
  with range_response [OF assms(1,2,5,6,7)] assms(9) show ?thesis by simp
qed

lemma find_reservation_total:
  "list_all (parses E) rs \<Longrightarrow> \<exists>found. find_reservation E d rs = Inr found"
  by (simp add: find_reservation_find)

lemma check_date_no_error:
  assumes "strptime E date = Some check_date"
    and "list_all (parses E)
           (get_reservations E entity_id (year check_date) (month check_date))"
  shows "check_date_availability E entity_id date \<noteq> DateError err"
  using assms(1) find_reservation_total [OF assms(2), of "date_of check_date"]
  by (auto simp: check_date_availability_def split: option.splits)

section \<open>The claims\<close>

text \<open>
  C1: the scenario of the specification: one reservation, id 1, from 2024-03-05 to
  2024-03-10, and the range 2024-03-01 to 2024-03-15. The tool reports the reservation as
  the only conflict and the available periods 2024-03-01 to 2024-03-04 and 2024-03-10 to
  2024-03-15: the period before the conflict ends on the last free day, 2024-03-04, and
  not on the start date of the conflict, 2024-03-05.
\<close>

theorem C1_march_scenario:
  "check_date_range_availability (example_env [booking]) ''1'' ''2024-03-01'' ''2024-03-15''
     = RangeConflicts ''1'' ''2024-03-01'' ''2024-03-15''
         [summary booking (ymd2ord 2024 3 5) (ymd2ord 2024 3 10)]
         [(ymd2ord 2024 3 1, ymd2ord 2024 3 4), (ymd2ord 2024 3 10, ymd2ord 2024 3 15)] \<and>
   ymd2ord 2024 3 4 < ymd2ord 2024 3 5"
  by code_simp

text \<open>
  C2: in the same scenario the conflicts and the available periods, read as half-open
  intervals, do not cover the range exactly: 2024-03-04 lies in the range, in no conflict
  and in no available period.
\<close>

theorem C2_march_scenario_gap:
  "\<exists>conflicts periods.
     check_date_range_availability (example_env [booking]) ''1'' ''2024-03-01'' ''2024-03-15''
       = RangeConflicts ''1'' ''2024-03-01'' ''2024-03-15'' conflicts periods \<and>
     \<not> exact_cover (ymd2ord 2024 3 1) (ymd2ord 2024 3 15) conflicts periods \<and>
     \<not> in_conflict (ymd2ord 2024 3 4) conflicts \<and> \<not> in_period (ymd2ord 2024 3 4) periods"
proof (intro exI conjI)
  show "check_date_range_availability (example_env [booking]) ''1'' ''2024-03-01'' ''2024-03-15''
     = RangeConflicts ''1'' ''2024-03-01'' ''2024-03-15''
         [summary booking (ymd2ord 2024 3 5) (ymd2ord 2024 3 10)]
         [(ymd2ord 2024 3 1, ymd2ord 2024 3 4), (ymd2ord 2024 3 10, ymd2ord 2024 3 15)]"
    by code_simp
  show "\<not> exact_cover (ymd2ord 2024 3 1) (ymd2ord 2024 3 15)
         [summary booking (ymd2ord 2024 3 5) (ymd2ord 2024 3 10)]
         [(ymd2ord 2024 3 1, ymd2ord 2024 3 4), (ymd2ord 2024 3 10, ymd2ord 2024 3 15)]"
    by code_simp
  show "\<not> in_conflict (ymd2ord 2024 3 4) [summary booking (ymd2ord 2024 3 5) (ymd2ord 2024 3 10)]"
    by code_simp
  show "\<not> in_period (ymd2ord 2024 3 4)
         [(ymd2ord 2024 3 1, ymd2ord 2024 3 4), (ymd2ord 2024 3 10, ymd2ord 2024 3 15)]"
    by code_simp
qed

text \<open>
  C3: a reservation whose end date is not after its start date makes neither tool
  fail: with timestamps that parse, the single-date check answers with a success shape
  and never reports this reservation as the occupying one; the reservation never blocks
  a day of the scan for available periods; and the range check (with dates that are
  parsed back unchanged) answers with a success shape in which the reservation is among
  the conflicts exactly when the start of the range is before its end date and its start
  date is before the end of the range. Then the range is reported as not available.
\<close>

theorem C3_degenerate_reservation:
  assumes "fromisoformat E (startDate r) = Some res_start"
    and "fromisoformat E (endDate r) = Some res_end"
    and "res_end \<le> res_start"
  shows "check_date_availability E entity_id date
           \<noteq> DateOccupied date entity_id (summary r res_start res_end) \<and>
         (strptime E date = Some check_date \<and>
          list_all (parses E)
            (get_reservations E entity_id (year check_date) (month check_date))
            \<longrightarrow> (\<forall>err. check_date_availability E entity_id date \<noteq> DateError err)) \<and>
         (reparses E (summary r res_start res_end)
            \<longrightarrow> blocking_reservation E d conflicts
                  \<noteq> Inr (Some (summary r res_start res_end))) \<and>
         (strptime E start_date' = Some start_dt \<and> strptime E end_date' = Some end_dt \<and>
          valid_dt start_dt \<and> valid_dt end_dt \<and> dt_less start_dt end_dt \<and>
          all_reservations E entity_id start_dt end_dt = Inr rs \<and> r \<in> set rs \<and>
          list_all (parses E) rs \<and>
          list_all (reparses E) (intersecting E (date_of start_dt) (date_of end_dt) rs)
            \<longrightarrow> (summary r res_start res_end
                    \<in> set (intersecting E (date_of start_dt) (date_of end_dt) rs)
                   \<longleftrightarrow> date_of start_dt < res_end \<and> res_start < date_of end_dt) \<and>
                (if date_of start_dt < res_end \<and> res_start < date_of end_dt
                 then \<exists>periods.
                        check_date_range_availability E entity_id start_date' end_date'
                          = RangeConflicts entity_id start_date' end_date'
                              (intersecting E (date_of start_dt) (date_of end_dt) rs) periods
                 else check_date_range_availability E entity_id start_date' end_date'
                        = RangeAvailable entity_id start_date' end_date' \<or>
                      (\<exists>periods.
                        check_date_range_availability E entity_id start_date' end_date'
                          = RangeConflicts entity_id start_date' end_date'
                              (intersecting E (date_of start_dt) (date_of end_dt) rs) periods)))"
proof (intro conjI impI allI)
  show "check_date_availability E entity_id date
           \<noteq> DateOccupied date entity_id (summary r res_start res_end)"
  proof
    assume "check_date_availability E entity_id date
           = DateOccupied date entity_id (summary r res_start res_end)"
    then obtain d' rs' where
      "find_reservation E d' rs' = Inr (Some (summary r res_start res_end))"
      by (auto simp: check_date_availability_def split: option.splits sum.splits)
    from find_reservation_Some [OF this] assms(3) show False
      by (simp add: summary_def)
  qed
next
  fix err
  assume "strptime E date = Some check_date \<and>
          list_all (parses E)
            (get_reservations E entity_id (year check_date) (month check_date))"
  then show "check_date_availability E entity_id date \<noteq> DateError err"
    using check_date_no_error [of E date check_date entity_id err] by blast
next
  assume rp: "reparses E (summary r res_start res_end)"
  show "blocking_reservation E d conflicts \<noteq> Inr (Some (summary r res_start res_end))"
  proof
    assume "blocking_reservation E d conflicts = Inr (Some (summary r res_start res_end))"
    from blocking_reservation_Some [OF this] rp assms(3) show False
      by (auto simp: reparses_def summary_def)
  qed
next
  assume h: "strptime E start_date' = Some start_dt \<and> strptime E end_date' = Some end_dt \<and>
          valid_dt start_dt \<and> valid_dt end_dt \<and> dt_less start_dt end_dt \<and>
          all_reservations E entity_id start_dt end_dt = Inr rs \<and> r \<in> set rs \<and>
          list_all (parses E) rs \<and>
          list_all (reparses E) (intersecting E (date_of start_dt) (date_of end_dt) rs)"
  then have r: "r \<in> set rs" by simp
  have iff: "summary r res_start res_end
                    \<in> set (intersecting E (date_of start_dt) (date_of end_dt) rs)
                   \<longleftrightarrow> date_of start_dt < res_end \<and> res_start < date_of end_dt"
    unfolding intersecting_def using summary_in_conflicts [OF r assms(1,2)] by auto
  then show "summary r res_start res_end
                    \<in> set (intersecting E (date_of start_dt) (date_of end_dt) rs)
                   \<longleftrightarrow> date_of start_dt < res_end \<and> res_start < date_of end_dt" .
  have resp: "intersecting E (date_of start_dt) (date_of end_dt) rs \<noteq> [] \<Longrightarrow>
     \<exists>periods. check_date_range_availability E entity_id start_date' end_date'
                          = RangeConflicts entity_id start_date' end_date'
                              (intersecting E (date_of start_dt) (date_of end_dt) rs) periods"
    using h by (intro range_response_conflicts) simp_all
  have avail: "intersecting E (date_of start_dt) (date_of end_dt) rs = [] \<Longrightarrow>
     check_date_range_availability E entity_id start_date' end_date'
                        = RangeAvailable entity_id start_date' end_date'"
    using h range_response [of E start_date' start_dt end_date' end_dt entity_id rs]
    by simp
  show "if date_of start_dt < res_end \<and> res_start < date_of end_dt
                 then \<exists>periods.
                        check_date_range_availability E entity_id start_date' end_date'
                          = RangeConflicts entity_id start_date' end_date'
                              (intersecting E (date_of start_dt) (date_of end_dt) rs) periods
                 else check_date_range_availability E entity_id start_date' end_date'
                        = RangeAvailable entity_id start_date' end_date' \<or>
                      (\<exists>periods.
                        check_date_range_availability E entity_id start_date' end_date'
                          = RangeConflicts entity_id start_date' end_date'
                              (intersecting E (date_of start_dt) (date_of end_dt) rs) periods)"
  proof (cases "date_of start_dt < res_end \<and> res_start < date_of end_dt")
    case True
    with iff have "intersecting E (date_of start_dt) (date_of end_dt) rs \<noteq> []" by auto
    from resp [OF this] True show ?thesis by simp
  next
    case False
    with resp avail show ?thesis by auto
  qed
qed

theorem C3_degenerate_reservation_witness:
  "fromisoformat (example_env [inverted_booking]) (startDate inverted_booking)
     = Some (ymd2ord 2024 3 10) \<and>
   fromisoformat (example_env [inverted_booking]) (endDate inverted_booking)
     = Some (ymd2ord 2024 3 5) \<and>
   ymd2ord 2024 3 5 \<le> ymd2ord 2024 3 10 \<and>
   check_date_availability (example_env [inverted_booking]) ''1'' ''2024-03-07''
     \<noteq> DateOccupied ''2024-03-07'' ''1''
         (summary inverted_booking (ymd2ord 2024 3 10) (ymd2ord 2024 3 5)) \<and>
   check_date_availability (example_env [inverted_booking]) ''1'' ''2024-03-07''
     \<noteq> DateError InvalidDateFormat \<and>
   blocking_reservation (example_env [inverted_booking]) (ymd2ord 2024 3 7)
       [summary inverted_booking (ymd2ord 2024 3 10) (ymd2ord 2024 3 5)]
     \<noteq> Inr (Some (summary inverted_booking (ymd2ord 2024 3 10) (ymd2ord 2024 3 5))) \<and>
   summary inverted_booking (ymd2ord 2024 3 10) (ymd2ord 2024 3 5)
     \<in> set (intersecting (example_env [inverted_booking])
              (date_of \<lparr>year = 2024, month = 3, day = 1\<rparr>)
              (date_of \<lparr>year = 2024, month = 3, day = 15\<rparr>) [inverted_booking]) \<and>
   (\<exists>periods.
      check_date_range_availability (example_env [inverted_booking])
          ''1'' ''2024-03-01'' ''2024-03-15''
        = RangeConflicts ''1'' ''2024-03-01'' ''2024-03-15''
            (intersecting (example_env [inverted_booking])
              (date_of \<lparr>year = 2024, month = 3, day = 1\<rparr>)
              (date_of \<lparr>year = 2024, month = 3, day = 15\<rparr>) [inverted_booking]) periods)"
proof -
  define E where "E = example_env [inverted_booking]"
  define c where "c = summary inverted_booking (ymd2ord 2024 3 10) (ymd2ord 2024 3 5)"
  define s where "s = \<lparr>year = 2024, month = 3, day = 1\<rparr>"
  define e where "e = \<lparr>year = 2024, month = 3, day = 15\<rparr>"
  have h1: "fromisoformat E (startDate inverted_booking) = Some (ymd2ord 2024 3 10)"
    unfolding E_def by code_simp
  have h2: "fromisoformat E (endDate inverted_booking) = Some (ymd2ord 2024 3 5)"
    unfolding E_def by code_simp
  have h3: "ymd2ord 2024 3 5 \<le> ymd2ord 2024 3 10"
    by code_simp
  have p1: "strptime E ''2024-03-07'' = Some \<lparr>year = 2024, month = 3, day = 7\<rparr>"
    unfolding E_def by code_simp
  have p2: "list_all (parses E) (get_reservations E ''1''
              (year \<lparr>year = 2024, month = 3, day = 7\<rparr>) (month \<lparr>year = 2024, month = 3, day = 7\<rparr>))"
    unfolding E_def by code_simp
  have rp: "reparses E c"
    unfolding E_def c_def by code_simp
  have q1: "strptime E ''2024-03-01'' = Some s"
    unfolding E_def s_def by code_simp
  have q2: "strptime E ''2024-03-15'' = Some e"
    unfolding E_def e_def by code_simp
  have v1: "valid_dt s" unfolding s_def by code_simp
  have v2: "valid_dt e" unfolding e_def by code_simp
  have l: "dt_less s e" unfolding s_def e_def by code_simp
  have q3: "all_reservations E ''1'' s e = Inr [inverted_booking]"
    unfolding E_def s_def e_def by code_simp
  have m: "inverted_booking \<in> set [inverted_booking]"
    by simp
  have q4: "list_all (parses E) [inverted_booking]"
    unfolding E_def by code_simp
  have q5: "list_all (reparses E) (intersecting E (date_of s) (date_of e) [inverted_booking])"
    unfolding E_def s_def e_def by code_simp
  have o: "date_of s < ymd2ord 2024 3 5 \<and> ymd2ord 2024 3 10 < date_of e"
    unfolding s_def e_def by code_simp
  note t = C3_degenerate_reservation [OF h1 h2 h3, where entity_id = "''1''"
      and date = "''2024-03-07''" and check_date = "\<lparr>year = 2024, month = 3, day = 7\<rparr>"
      and d = "ymd2ord 2024 3 7" and conflicts = "[c]"
      and start_date' = "''2024-03-01''" and end_date' = "''2024-03-15''"
      and start_dt = s and end_dt = e and rs = "[inverted_booking]"]
  from t have a: "check_date_availability E ''1'' ''2024-03-07''
     \<noteq> DateOccupied ''2024-03-07'' ''1'' c"
    unfolding c_def by (rule conjunct1)
  from t p1 p2 have b: "check_date_availability E ''1'' ''2024-03-07''
     \<noteq> DateError InvalidDateFormat"
    by blast
  from t rp have bl: "blocking_reservation E (ymd2ord 2024 3 7) [c] \<noteq> Inr (Some c)"
    unfolding c_def by blast
  from t q1 q2 v1 v2 l q3 m q4 q5 o
  have r: "c \<in> set (intersecting E (date_of s) (date_of e) [inverted_booking]) \<and>
     (\<exists>periods. check_date_range_availability E ''1'' ''2024-03-01'' ''2024-03-15''
        = RangeConflicts ''1'' ''2024-03-01'' ''2024-03-15''
            (intersecting E (date_of s) (date_of e) [inverted_booking]) periods)"
    unfolding c_def by simp
  from h1 h2 h3 a b bl r show ?thesis
    unfolding E_def c_def s_def e_def by simp
qed

text \<open>
  An inverted reservation, from 2024-03-10 to 2024-03-05, inside the range 2024-03-01 to
  2024-03-15 is reported as a conflict, and the range as not available.
\<close>

theorem C3_inverted_is_conflict:
  "ymd2ord 2024 3 5 \<le> ymd2ord 2024 3 10 \<and>
   fromisoformat (example_env [inverted_booking]) (startDate inverted_booking)
     = Some (ymd2ord 2024 3 10) \<and>
   fromisoformat (example_env [inverted_booking]) (endDate inverted_booking)
     = Some (ymd2ord 2024 3 5) \<and>
   check_date_range_availability (example_env [inverted_booking])
       ''1'' ''2024-03-01'' ''2024-03-15''
     = RangeConflicts ''1'' ''2024-03-01'' ''2024-03-15''
         [summary inverted_booking (ymd2ord 2024 3 10) (ymd2ord 2024 3 5)]
         [(ymd2ord 2024 3 1, ymd2ord 2024 3 15)]"
  by code_simp

text \<open>
  C4: for fetched reservations whose timestamps parse, the conflicts the range check
  collects are the reservations with a start date before the end of the range and an end
  date after the start of the range, and the response carries this list: the range is
  available when the list is empty, and otherwise the response lists exactly these
  conflicts, unless the scan for available periods raises (it does not when the dates of
  the conflicts are parsed back unchanged). So a reservation that ends on the start date
  of the range, or starts on its end date, is not listed.
\<close>

theorem C4_conflict_iff_overlap:
  assumes "strptime E start_date' = Some start_dt"
    and "strptime E end_date' = Some end_dt"
    and "dt_less start_dt end_dt"
    and "all_reservations E entity_id start_dt end_dt = Inr rs"
    and "list_all (parses E) rs"
    and "r \<in> set rs"
    and "fromisoformat E (startDate r) = Some res_start"
    and "fromisoformat E (endDate r) = Some res_end"
  shows "find_conflicts E (date_of start_dt) (date_of end_dt) rs []
           = Inr (intersecting E (date_of start_dt) (date_of end_dt) rs) \<and>
         check_date_range_availability E entity_id start_date' end_date' =
           (if intersecting E (date_of start_dt) (date_of end_dt) rs = []
            then RangeAvailable entity_id start_date' end_date'
            else (case scan E (intersecting E (date_of start_dt) (date_of end_dt) rs)
                         (date_of end_dt) (date_of start_dt) [] of
                    Inl x \<Rightarrow> RangeError (handler x)
                  | Inr periods \<Rightarrow>
                      RangeConflicts entity_id start_date' end_date'
                        (intersecting E (date_of start_dt) (date_of end_dt) rs) periods)) \<and>
         (valid_dt start_dt \<and> valid_dt end_dt \<and>
          list_all (reparses E) (intersecting E (date_of start_dt) (date_of end_dt) rs) \<and>
          res_start < date_of end_dt \<and> res_end > date_of start_dt
            \<longrightarrow> (\<exists>periods.
                   check_date_range_availability E entity_id start_date' end_date'
                     = RangeConflicts entity_id start_date' end_date'
                         (intersecting E (date_of start_dt) (date_of end_dt) rs) periods)) \<and>
         (summary r res_start res_end
            \<in> set (intersecting E (date_of start_dt) (date_of end_dt) rs)
            \<longleftrightarrow> res_start < date_of end_dt \<and> res_end > date_of start_dt) \<and>
         (res_end = date_of start_dt
            \<longrightarrow> summary r res_start res_end
                  \<notin> set (intersecting E (date_of start_dt) (date_of end_dt) rs)) \<and>
         (res_start = date_of end_dt
            \<longrightarrow> summary r res_start res_end
                  \<notin> set (intersecting E (date_of start_dt) (date_of end_dt) rs))"
proof -
  have fc: "find_conflicts E (date_of start_dt) (date_of end_dt) rs []
           = Inr (intersecting E (date_of start_dt) (date_of end_dt) rs)"
    using find_conflicts_filter [OF assms(5), of "date_of start_dt" "date_of end_dt" "[]"]
    by (simp add: intersecting_def)
  note resp = range_response [OF assms(1-5)]
  have iff: "summary r res_start res_end
            \<in> set (intersecting E (date_of start_dt) (date_of end_dt) rs)
            \<longleftrightarrow> res_start < date_of end_dt \<and> res_end > date_of start_dt"
    unfolding intersecting_def by (rule summary_in_conflicts [OF assms(6-8)])
  have listed: "\<exists>periods.
                   check_date_range_availability E entity_id start_date' end_date'
                     = RangeConflicts entity_id start_date' end_date'
                         (intersecting E (date_of start_dt) (date_of end_dt) rs) periods"
    if "valid_dt start_dt \<and> valid_dt end_dt \<and>
          list_all (reparses E) (intersecting E (date_of start_dt) (date_of end_dt) rs) \<and>
          res_start < date_of end_dt \<and> res_end > date_of start_dt"
  proof -
    from that iff have "intersecting E (date_of start_dt) (date_of end_dt) rs \<noteq> []" by auto
    with that show ?thesis
      using assms(1-5) by (intro range_response_conflicts) simp_all
  qed
  from iff have b1: "res_end = date_of start_dt
            \<longrightarrow> summary r res_start res_end
                  \<notin> set (intersecting E (date_of start_dt) (date_of end_dt) rs)"
    by auto
  from iff have b2: "res_start = date_of end_dt
            \<longrightarrow> summary r res_start res_end
                  \<notin> set (intersecting E (date_of start_dt) (date_of end_dt) rs)"
    by auto
  from fc resp listed iff b1 b2 show ?thesis by blast
qed

theorem C4_conflict_iff_overlap_witness:
  "all_reservations (example_env [booking]) ''1'' \<lparr>year = 2024, month = 3, day = 1\<rparr>
       \<lparr>year = 2024, month = 3, day = 15\<rparr> = Inr [booking] \<and>
   list_all (parses (example_env [booking])) [booking] \<and>
   ymd2ord 2024 3 5 < date_of \<lparr>year = 2024, month = 3, day = 15\<rparr> \<and>
   ymd2ord 2024 3 10 > date_of \<lparr>year = 2024, month = 3, day = 1\<rparr> \<and>
   intersecting (example_env [booking]) (date_of \<lparr>year = 2024, month = 3, day = 1\<rparr>)
       (date_of \<lparr>year = 2024, month = 3, day = 15\<rparr>) [booking]
     = [summary booking (ymd2ord 2024 3 5) (ymd2ord 2024 3 10)] \<and>
   find_conflicts (example_env [booking]) (date_of \<lparr>year = 2024, month = 3, day = 1\<rparr>)
       (date_of \<lparr>year = 2024, month = 3, day = 15\<rparr>) [booking] []
     = Inr [summary booking (ymd2ord 2024 3 5) (ymd2ord 2024 3 10)] \<and>
   (\<exists>periods.
      check_date_range_availability (example_env [booking]) ''1'' ''2024-03-01'' ''2024-03-15''
        = RangeConflicts ''1'' ''2024-03-01'' ''2024-03-15''
            [summary booking (ymd2ord 2024 3 5) (ymd2ord 2024 3 10)] periods)"
proof -
  define E where "E = example_env [booking]"
  define s where "s = \<lparr>year = 2024, month = 3, day = 1\<rparr>"
  define e where "e = \<lparr>year = 2024, month = 3, day = 15\<rparr>"
  have q1: "strptime E ''2024-03-01'' = Some s"
    unfolding E_def s_def by code_simp
  have q2: "strptime E ''2024-03-15'' = Some e"
    unfolding E_def e_def by code_simp
  have l: "dt_less s e" unfolding s_def e_def by code_simp
  have q3: "all_reservations E ''1'' s e = Inr [booking]"
    unfolding E_def s_def e_def by code_simp
  have q4: "list_all (parses E) [booking]"
    unfolding E_def by code_simp
  have m: "booking \<in> set [booking]"
    by simp
  have h1: "fromisoformat E (startDate booking) = Some (ymd2ord 2024 3 5)"
    unfolding E_def by code_simp
  have h2: "fromisoformat E (endDate booking) = Some (ymd2ord 2024 3 10)"
    unfolding E_def by code_simp
  have v1: "valid_dt s" unfolding s_def by code_simp
  have v2: "valid_dt e" unfolding e_def by code_simp
  have i: "intersecting E (date_of s) (date_of e) [booking]
     = [summary booking (ymd2ord 2024 3 5) (ymd2ord 2024 3 10)]"
    unfolding E_def s_def e_def by code_simp
  have q5: "list_all (reparses E) (intersecting E (date_of s) (date_of e) [booking])"
    unfolding E_def s_def e_def by code_simp
  have o: "ymd2ord 2024 3 5 < date_of e \<and> ymd2ord 2024 3 10 > date_of s"
    unfolding s_def e_def by code_simp
  note t = C4_conflict_iff_overlap [OF q1 q2 l q3 q4 m h1 h2]
  from t have f: "find_conflicts E (date_of s) (date_of e) [booking] []
     = Inr (intersecting E (date_of s) (date_of e) [booking])"
    by (rule conjunct1)
  from t v1 v2 q5 o have r: "\<exists>periods.
      check_date_range_availability E ''1'' ''2024-03-01'' ''2024-03-15''
        = RangeConflicts ''1'' ''2024-03-01'' ''2024-03-15''
            (intersecting E (date_of s) (date_of e) [booking]) periods"
    by blast
  from q3 q4 o i f r show ?thesis
    unfolding E_def s_def e_def by simp
qed

text \<open>
  C5: for a range that does not end in December 9999, the fetch collaborator is called
  once for each calendar month from the month of the start date through the month of the
  end date, and for no other month.
\<close>

theorem C5_fetched_months:
  assumes "valid_dt start_dt" and "valid_dt end_dt"
    and "\<not> (year end_dt = MAXYEAR \<and> month end_dt = 12)"
    and "iterates_once E"
  shows "\<exists>calls. fetch_calls E start_dt end_dt = Inr calls \<and> distinct calls \<and>
                 set calls = months_between start_dt end_dt"
  using assms by (rule fetch_calls_months)

theorem C5_fetched_months_witness:
  "valid_dt \<lparr>year = 2024, month = 11, day = 20\<rparr> \<and>
   valid_dt \<lparr>year = 2025, month = 2, day = 3\<rparr> \<and>
   iterates_once (example_env [booking]) \<and>
   fetch_calls (example_env [booking])
       \<lparr>year = 2024, month = 11, day = 20\<rparr> \<lparr>year = 2025, month = 2, day = 3\<rparr>
     = Inr [(2025, 2), (2025, 1), (2024, 12), (2024, 11)] \<and>
   distinct [(2025, 2), (2025, 1), (2024, 12), (2024, 11 :: int)] \<and>
   set [(2025, 2), (2025, 1), (2024, 12), (2024, 11)]
     = months_between \<lparr>year = 2024, month = 11, day = 20\<rparr> \<lparr>year = 2025, month = 2, day = 3\<rparr>"
proof -
  have v1: "valid_dt \<lparr>year = 2024, month = 11, day = 20\<rparr>"
    by code_simp
  have v2: "valid_dt \<lparr>year = 2025, month = 2, day = 3\<rparr>"
    by code_simp
  have n: "\<not> (year \<lparr>year = 2025, month = 2, day = 3\<rparr> = MAXYEAR \<and>
              month \<lparr>year = 2025, month = 2, day = 3\<rparr> = 12)"
    by simp
  have i: "iterates_once (example_env [booking])"
    by (simp add: iterates_once_def example_env_def)
  have f: "fetch_calls (example_env [booking])
       \<lparr>year = 2024, month = 11, day = 20\<rparr> \<lparr>year = 2025, month = 2, day = 3\<rparr>
     = Inr [(2025, 2), (2025, 1), (2024, 12), (2024, 11)]"
    by code_simp
  from C5_fetched_months [OF v1 v2 n i] f
  have "distinct [(2025, 2), (2025, 1), (2024, 12), (2024, 11 :: int)] \<and>
     set [(2025, 2), (2025, 1), (2024, 12), (2024, 11)]
     = months_between \<lparr>year = 2024, month = 11, day = 20\<rparr> \<lparr>year = 2025, month = 2, day = 3\<rparr>"
    by auto
  with v1 v2 i f show ?thesis by blast
qed

text \<open>
  For the range 9999-12-01 to 9999-12-15 the month cursor would have to move to
  January 10000: \<^verbatim>\<open>replace\<close> raises \<^verbatim>\<open>ValueError\<close>, no month is fetched although
  December 9999 lies in the range, and the tool answers with the invalid-date error.
\<close>

theorem C5_december_9999:
  "dt_less \<lparr>year = 9999, month = 12, day = 1\<rparr> \<lparr>year = 9999, month = 12, day = 15\<rparr> \<and>
   (9999, 12) \<in> months_between \<lparr>year = 9999, month = 12, day = 1\<rparr>
                                  \<lparr>year = 9999, month = 12, day = 15\<rparr> \<and>
   fetch_calls (example_env [booking])
     \<lparr>year = 9999, month = 12, day = 1\<rparr> \<lparr>year = 9999, month = 12, day = 15\<rparr> = Inl ValueError \<and>
   check_date_range_availability (example_env [booking]) ''1'' ''9999-12-01'' ''9999-12-15''
     = RangeError InvalidDateFormat"
proof (intro conjI)
  show "(9999, 12) \<in> months_between \<lparr>year = 9999, month = 12, day = 1\<rparr>
                                  \<lparr>year = 9999, month = 12, day = 15\<rparr>"
    by (simp add: months_between_def month_index_def)
qed code_simp+

text \<open>
  C6: a range whose start date is not before its end date is answered with the error
  of the range check, and a date text that \<^verbatim>\<open>strptime\<close> rejects is answered with the
  invalid-date error, by the range check and by the single-date check; a date text that
  \<^verbatim>\<open>strptime\<close> accepts is treated as a date, and the single-date check then answers
  with a success shape (the timestamps of the fetched reservations being well formed).
\<close>

theorem C6_invalid_input_is_error:
  "(strptime E start_date' = Some start_dt \<and> strptime E end_date' = Some end_dt \<and>
    \<not> dt_less start_dt end_dt
      \<longrightarrow> check_date_range_availability E entity_id start_date' end_date'
            = RangeError StartNotBeforeEnd) \<and>
   (strptime E start_date' = None \<or> strptime E end_date' = None
      \<longrightarrow> check_date_range_availability E entity_id start_date' end_date'
            = RangeError InvalidDateFormat) \<and>
   (strptime E date = None
      \<longrightarrow> check_date_availability E entity_id date = DateError InvalidDateFormat) \<and>
   (strptime E date = Some check_date \<and>
    list_all (parses E) (get_reservations E entity_id (year check_date) (month check_date))
      \<longrightarrow> (\<forall>err. check_date_availability E entity_id date \<noteq> DateError err))"
proof (intro conjI impI allI)
  fix err
  assume "strptime E date = Some check_date \<and>
    list_all (parses E) (get_reservations E entity_id (year check_date) (month check_date))"
  then show "check_date_availability E entity_id date \<noteq> DateError err"
    using check_date_no_error [of E date check_date entity_id err] by blast
qed (auto simp: check_date_range_availability_def check_date_availability_def dt_le_not_less
          split: option.splits)

theorem C6_invalid_input_is_error_witness:
  "check_date_range_availability (example_env [booking]) ''1'' ''2024-03-15'' ''2024-03-01''
     = RangeError StartNotBeforeEnd \<and>
   check_date_range_availability (example_env [booking]) ''1'' ''2024-03-01'' ''15/03/2024''
     = RangeError InvalidDateFormat \<and>
   check_date_availability (example_env [booking]) ''1'' ''15/03/2024''
     = DateError InvalidDateFormat \<and>
   check_date_availability (example_env [booking]) ''1'' ''2024-03-07''
     \<noteq> DateError InvalidDateFormat"
proof -
  define E where "E = example_env [booking]"
  have q1: "strptime E ''2024-03-15'' = Some \<lparr>year = 2024, month = 3, day = 15\<rparr>"
    unfolding E_def by code_simp
  have q2: "strptime E ''2024-03-01'' = Some \<lparr>year = 2024, month = 3, day = 1\<rparr>"
    unfolding E_def by code_simp
  have q3: "\<not> dt_less \<lparr>year = 2024, month = 3, day = 15\<rparr> \<lparr>year = 2024, month = 3, day = 1\<rparr>"
    by code_simp
  have q4: "strptime E ''15/03/2024'' = None"
    unfolding E_def by code_simp
  have p1: "strptime E ''2024-03-07'' = Some \<lparr>year = 2024, month = 3, day = 7\<rparr>"
    unfolding E_def by code_simp
  have p2: "list_all (parses E) (get_reservations E ''1''
              (year \<lparr>year = 2024, month = 3, day = 7\<rparr>) (month \<lparr>year = 2024, month = 3, day = 7\<rparr>))"
    unfolding E_def by code_simp
  from C6_invalid_input_is_error [where E = E and start_date' = "''2024-03-15''"
      and end_date' = "''2024-03-01''" and entity_id = "''1''" and date = "''15/03/2024''"]
    q1 q2 q3
  have a: "check_date_range_availability E ''1'' ''2024-03-15'' ''2024-03-01''
     = RangeError StartNotBeforeEnd" by blast
  from C6_invalid_input_is_error [where E = E and start_date' = "''2024-03-01''"
      and end_date' = "''15/03/2024''" and entity_id = "''1''" and date = "''15/03/2024''"]
    q4
  have b: "check_date_range_availability E ''1'' ''2024-03-01'' ''15/03/2024''
     = RangeError InvalidDateFormat \<and>
     check_date_availability E ''1'' ''15/03/2024'' = DateError InvalidDateFormat" by blast
  from C6_invalid_input_is_error [where E = E and entity_id = "''1''"
      and date = "''2024-03-07''" and check_date = "\<lparr>year = 2024, month = 3, day = 7\<rparr>"]
    p1 p2
  have c: "check_date_availability E ''1'' ''2024-03-07'' \<noteq> DateError InvalidDateFormat"
    by blast
  from a b c show ?thesis unfolding E_def by simp
qed

text \<open>
  \<^verbatim>\<open>strptime\<close> accepts \<^verbatim>\<open>'2024-3-1'\<close>, which is not of the form YYYY-MM-DD: both
  tools answer with a success shape.
\<close>

theorem C6_one_digit_month_and_day:
  "\<not> yyyy_mm_dd ''2024-3-1'' \<and>
   check_date_availability (example_env [booking]) ''1'' ''2024-3-1''
     = DateAvailable ''2024-3-1'' ''1'' \<and>
   check_date_range_availability (example_env [booking]) ''1'' ''2024-3-1'' ''2024-03-15''
     = RangeConflicts ''1'' ''2024-3-1'' ''2024-03-15''
         [summary booking (ymd2ord 2024 3 5) (ymd2ord 2024 3 10)]
         [(ymd2ord 2024 3 1, ymd2ord 2024 3 4), (ymd2ord 2024 3 10, ymd2ord 2024 3 15)]"
  by code_simp

text \<open>
  C7: when the timestamps of the reservations of the month parse, the single-date
  check reports the first reservation, in the order of the fetch, whose dates cover the
  day (start \<open>\<le>\<close> day \<open><\<close> end), with its id and dates, and reports the day as
  available when no reservation covers it.
\<close>

theorem C7_single_date_first_match:
  assumes "strptime E date = Some check_date"
    and "rs = get_reservations E entity_id (year check_date) (month check_date)"
    and "list_all (parses E) rs"
  shows "check_date_availability E entity_id date =
           (case find (covers E (date_of check_date)) rs of
              None \<Rightarrow> DateAvailable date entity_id
            | Some r \<Rightarrow> DateOccupied date entity_id (conflict_of E r))"
  using assms(1,2) find_reservation_find [OF assms(3), of "date_of check_date"]
  by (simp add: check_date_availability_def split: option.splits)

theorem C7_single_date_first_match_witness:
  "strptime (example_env [booking]) ''2024-03-07'' = Some \<lparr>year = 2024, month = 3, day = 7\<rparr> \<and>
   list_all (parses (example_env [booking])) [booking] \<and>
   find (covers (example_env [booking]) (date_of \<lparr>year = 2024, month = 3, day = 7\<rparr>)) [booking]
     = Some booking \<and>
   check_date_availability (example_env [booking]) ''1'' ''2024-03-07''
     = DateOccupied ''2024-03-07'' ''1'' (conflict_of (example_env [booking]) booking) \<and>
   id' (conflict_of (example_env [booking]) booking) = 1"
proof -
  define E where "E = example_env [booking]"
  have q1: "strptime E ''2024-03-07'' = Some \<lparr>year = 2024, month = 3, day = 7\<rparr>"
    unfolding E_def by code_simp
  have q2: "[booking] = get_reservations E ''1'' (year \<lparr>year = 2024, month = 3, day = 7\<rparr>)
               (month \<lparr>year = 2024, month = 3, day = 7\<rparr>)"
    unfolding E_def by (simp add: example_env_def)
  have q3: "list_all (parses E) [booking]"
    unfolding E_def by code_simp
  have q4: "find (covers E (date_of \<lparr>year = 2024, month = 3, day = 7\<rparr>)) [booking] = Some booking"
    unfolding E_def by code_simp
  have q5: "id' (conflict_of E booking) = 1"
    unfolding E_def by code_simp
  from C7_single_date_first_match [OF q1 q2 q3] q4
  have "check_date_availability E ''1'' ''2024-03-07''
     = DateOccupied ''2024-03-07'' ''1'' (conflict_of E booking)"
    by simp
  with q1 q3 q4 q5 show ?thesis unfolding E_def by blast
qed

text \<open>
  C8: when the start date is before the end date, the range does not end in December
  9999 and none of the fetched reservations intersects the range, the range check answers
  that the range is available, with the requested period and neither conflicts nor
  available periods.
\<close>

theorem C8_no_conflict_available:
  assumes "strptime E start_date' = Some start_dt"
    and "strptime E end_date' = Some end_dt"
    and "valid_dt start_dt" and "valid_dt end_dt"
    and "dt_less start_dt end_dt"
    and "\<not> (year end_dt = MAXYEAR \<and> month end_dt = 12)"
  shows "\<exists>rs. all_reservations E entity_id start_dt end_dt = Inr rs \<and>
              (list_all (parses E) rs \<and>
               \<not> list_ex (intersects E (date_of start_dt) (date_of end_dt)) rs
                 \<longrightarrow> check_date_range_availability E entity_id start_date' end_date'
                       = RangeAvailable entity_id start_date' end_date')"
proof -
  from all_reservations_total [OF assms(3,4,6)] obtain rs
    where rs: "all_reservations E entity_id start_dt end_dt = Inr rs" by blast
  have "check_date_range_availability E entity_id start_date' end_date'
                       = RangeAvailable entity_id start_date' end_date'"
    if "list_all (parses E) rs \<and>
        \<not> list_ex (intersects E (date_of start_dt) (date_of end_dt)) rs"
  proof -
    from that have "intersecting E (date_of start_dt) (date_of end_dt) rs = []"
      by (simp add: intersecting_def list_ex_iff filter_empty_conv)
    with range_response [OF assms(1,2,5) rs] that show ?thesis by simp
  qed
  with rs show ?thesis by blast
qed

theorem C8_no_conflict_available_witness:
  "dt_less \<lparr>year = 2024, month = 3, day = 10\<rparr> \<lparr>year = 2024, month = 3, day = 15\<rparr> \<and>
   all_reservations (example_env [booking]) ''1''
       \<lparr>year = 2024, month = 3, day = 10\<rparr> \<lparr>year = 2024, month = 3, day = 15\<rparr> = Inr [booking] \<and>
   list_all (parses (example_env [booking])) [booking] \<and>
   \<not> list_ex (intersects (example_env [booking])
         (date_of \<lparr>year = 2024, month = 3, day = 10\<rparr>)
         (date_of \<lparr>year = 2024, month = 3, day = 15\<rparr>)) [booking] \<and>
   check_date_range_availability (example_env [booking]) ''1'' ''2024-03-10'' ''2024-03-15''
     = RangeAvailable ''1'' ''2024-03-10'' ''2024-03-15''"
proof -
  define E where "E = example_env [booking]"
  define s where "s = \<lparr>year = 2024, month = 3, day = 10\<rparr>"
  define e where "e = \<lparr>year = 2024, month = 3, day = 15\<rparr>"
  have q1: "strptime E ''2024-03-10'' = Some s"
    unfolding E_def s_def by code_simp
  have q2: "strptime E ''2024-03-15'' = Some e"
    unfolding E_def e_def by code_simp
  have v1: "valid_dt s" unfolding s_def by code_simp
  have v2: "valid_dt e" unfolding e_def by code_simp
  have q3: "dt_less s e" unfolding s_def e_def by code_simp
  have n: "\<not> (year e = MAXYEAR \<and> month e = 12)" unfolding e_def by simp
  have q4: "all_reservations E ''1'' s e = Inr [booking]"
    unfolding E_def s_def e_def by code_simp
  have q5: "list_all (parses E) [booking]"
    unfolding E_def by code_simp
  have q6: "\<not> list_ex (intersects E (date_of s) (date_of e)) [booking]"
    unfolding E_def s_def e_def by code_simp
  from C8_no_conflict_available [OF q1 q2 v1 v2 q3 n, of "''1''"] q4 q5 q6
  have "check_date_range_availability E ''1'' ''2024-03-10'' ''2024-03-15''
     = RangeAvailable ''1'' ''2024-03-10'' ''2024-03-15''"
    by auto
  with q3 q4 q5 q6 show ?thesis unfolding E_def s_def e_def by blast
qed

text \<open>
  For the range 9999-12-01 to 9999-12-15 and a backend without reservations nothing
  is fetched, no reservation intersects the range, and the answer is the invalid-date
  error.
\<close>

theorem C8_december_9999_error:
  "dt_less \<lparr>year = 9999, month = 12, day = 1\<rparr> \<lparr>year = 9999, month = 12, day = 15\<rparr> \<and>
   get_reservations (example_env []) ''1'' 9999 12 = [] \<and>
   all_reservations (example_env []) ''1''
     \<lparr>year = 9999, month = 12, day = 1\<rparr> \<lparr>year = 9999, month = 12, day = 15\<rparr> = Inl ValueError \<and>
   check_date_range_availability (example_env []) ''1'' ''9999-12-01'' ''9999-12-15''
     = RangeError InvalidDateFormat"
  by code_simp

text \<open>
  C9: for every list of conflicts, degenerate and inverted intervals included, each
  pass through the body of the scan loop that does not raise moves the cursor strictly
  forward, and the loop makes at most as many passes as there are days from the cursor
  to the end of the range. (\<open>scan\<close> and \<open>find_period_end\<close> are total functions: their
  termination proofs rest on the same progress.)
\<close>

theorem C9_scan_terminates:
  "(\<forall>next period. scan_step E conflicts e current_date = Inr (next, period)
       \<longrightarrow> current_date < next) \<and>
   scan_iterations E conflicts e current_date \<le> nat (e - current_date)"
  using scan_step_advances [of E conflicts e current_date]
    scan_iterations_bound [of E conflicts e current_date]
  by blast

theorem C9_scan_terminates_witness:
  "scan_step (example_env [booking]) [summary booking (ymd2ord 2024 3 5) (ymd2ord 2024 3 10),
              summary inverted_booking (ymd2ord 2024 3 10) (ymd2ord 2024 3 5)]
       (ymd2ord 2024 3 15) (ymd2ord 2024 3 1)
     = Inr (ymd2ord 2024 3 5, Some (ymd2ord 2024 3 1, ymd2ord 2024 3 4)) \<and>
   ymd2ord 2024 3 1 < ymd2ord 2024 3 5 \<and>
   scan_iterations (example_env [booking]) [summary booking (ymd2ord 2024 3 5) (ymd2ord 2024 3 10),
              summary inverted_booking (ymd2ord 2024 3 10) (ymd2ord 2024 3 5)]
       (ymd2ord 2024 3 15) (ymd2ord 2024 3 1)
     \<le> nat (ymd2ord 2024 3 15 - ymd2ord 2024 3 1)"
proof -
  define cs where "cs = [summary booking (ymd2ord 2024 3 5) (ymd2ord 2024 3 10),
              summary inverted_booking (ymd2ord 2024 3 10) (ymd2ord 2024 3 5)]"
  have s: "scan_step (example_env [booking]) cs (ymd2ord 2024 3 15) (ymd2ord 2024 3 1)
     = Inr (ymd2ord 2024 3 5, Some (ymd2ord 2024 3 1, ymd2ord 2024 3 4))"
    unfolding cs_def by code_simp
  from C9_scan_terminates [of "example_env [booking]" cs "ymd2ord 2024 3 15" "ymd2ord 2024 3 1"] s
  have "ymd2ord 2024 3 1 < ymd2ord 2024 3 5 \<and>
        scan_iterations (example_env [booking]) cs (ymd2ord 2024 3 15) (ymd2ord 2024 3 1)
          \<le> nat (ymd2ord 2024 3 15 - ymd2ord 2024 3 1)"
    by blast
  with s show ?thesis unfolding cs_def by blast
qed

text \<open>
  C10: for a range that ends on the first day of a month other than December 9999, the
  month of the end date is among the months fetched, although only the excluded end date
  lies in it.
\<close>

theorem C10_end_month_fetched:
  assumes "valid_dt start_dt" and "valid_dt end_dt"
    and "dt_less start_dt end_dt"
    and "day end_dt = 1"
    and "\<not> (year end_dt = MAXYEAR \<and> month end_dt = 12)"
    and "iterates_once E"
  shows "\<exists>calls. fetch_calls E start_dt end_dt = Inr calls \<and>
                 (year end_dt, month end_dt) \<in> set calls"
proof -
  from fetch_calls_months [OF assms(1,2,5,6)] obtain calls
    where c: "fetch_calls E start_dt end_dt = Inr calls"
      and s: "set calls = months_between start_dt end_dt"
    by blast
  from assms(1-3) have "month_index (year start_dt, month start_dt)
      \<le> month_index (year end_dt, month end_dt)"
    by (auto simp: dt_less_def month_index_def valid_dt_def)
  with assms(2) have "(year end_dt, month end_dt) \<in> months_between start_dt end_dt"
    by (simp add: months_between_def valid_dt_def)
  with c s show ?thesis by simp
qed

theorem C10_end_month_fetched_witness:
  "valid_dt \<lparr>year = 2024, month = 3, day = 15\<rparr> \<and>
   valid_dt \<lparr>year = 2024, month = 4, day = 1\<rparr> \<and>
   dt_less \<lparr>year = 2024, month = 3, day = 15\<rparr> \<lparr>year = 2024, month = 4, day = 1\<rparr> \<and>
   iterates_once (example_env [booking]) \<and>
   fetch_calls (example_env [booking])
       \<lparr>year = 2024, month = 3, day = 15\<rparr> \<lparr>year = 2024, month = 4, day = 1\<rparr>
     = Inr [(2024, 4), (2024, 3)] \<and>
   (2024, 4) \<in> set [(2024, 4), (2024, 3 :: int)]"
proof -
  have v1: "valid_dt \<lparr>year = 2024, month = 3, day = 15\<rparr>"
    by code_simp
  have v2: "valid_dt \<lparr>year = 2024, month = 4, day = 1\<rparr>"
    by code_simp
  have l: "dt_less \<lparr>year = 2024, month = 3, day = 15\<rparr> \<lparr>year = 2024, month = 4, day = 1\<rparr>"
    by code_simp
  have d: "day \<lparr>year = 2024, month = 4, day = 1\<rparr> = 1"
    by simp
  have n: "\<not> (year \<lparr>year = 2024, month = 4, day = 1\<rparr> = MAXYEAR \<and>
              month \<lparr>year = 2024, month = 4, day = 1\<rparr> = 12)"
    by simp
  have i: "iterates_once (example_env [booking])"
    by (simp add: iterates_once_def example_env_def)
  have f: "fetch_calls (example_env [booking])
       \<lparr>year = 2024, month = 3, day = 15\<rparr> \<lparr>year = 2024, month = 4, day = 1\<rparr>
     = Inr [(2024, 4), (2024, 3)]"
    by code_simp
  from C10_end_month_fetched [OF v1 v2 l d n i] f
  have "(2024, 4) \<in> set [(2024, 4), (2024, 3 :: int)]"
    by auto
  with v1 v2 l i f show ?thesis by blast
qed

text \<open>
  For the range 9999-11-15 to 9999-12-01 the loop adds December 9999 and then fails
  to move the cursor to January 10000: nothing is fetched.
\<close>

theorem C10_first_of_december_9999:
  "dt_less \<lparr>year = 9999, month = 11, day = 15\<rparr> \<lparr>year = 9999, month = 12, day = 1\<rparr> \<and>
   day \<lparr>year = 9999, month = 12, day = 1\<rparr> = 1 \<and>
   fetch_calls (example_env [booking])
     \<lparr>year = 9999, month = 11, day = 15\<rparr> \<lparr>year = 9999, month = 12, day = 1\<rparr> = Inl ValueError \<and>
   check_date_range_availability (example_env [booking]) ''1'' ''9999-11-15'' ''9999-12-01''
     = RangeError InvalidDateFormat"
  by code_simp

end
